theory Spec2Isabelle
  imports Main
begin

section \<open>The hostess of the air lift (semSharedMemHostess.c)\<close>

text \<open>
  The hostess is one sequential process among several. It owns no data of its own
  besides the local counter of its main loop; everything else lives in a shared memory
  region that it reads and writes only between a down and an up of the semaphore
  \<open>mutex\<close>. The development below embeds the hostess as a state-passing program over

  \<^item> the shared region \<open>sh->fSt\<close>,
  \<^item> a script of replies of the semaphore library (what each call returns, and what
    the other processes have done to the region by the time the lock is acquired),
  \<^item> the trace of the calls the hostess has made (semaphore operations, logging
    calls, \<open>perror\<close>, \<open>exit\<close>), each with the contents of the region at that moment.

  A process that is still inside a semaphore call when the script ends has not
  returned: its outcome is \<open>Waiting\<close>.
\<close>

subsection \<open>Constants and shared data (probConst.h, probDataStruct.h)\<close>

text \<open>
  probConst.h is not among the sources. Its three macros are parameters of the model:
  \<open>N\<close> passengers in all, flights of \<open>MINFC\<close> to \<open>MAXFC\<close> passengers.
\<close>

record probConst =
  N :: int
  MINFC :: int
  MAXFC :: int

datatype hostess_stat = WAIT_FOR_FLIGHT | WAIT_FOR_PASSENGER | CHECK_PASSPORT | READY_TO_FLIGHT

text \<open>
  Modelled from the spec: the declaration of \<open>sh->fSt\<close> (probDataStruct.h) is not among
  the sources. The record has the fields that semSharedMemHostess.c accesses, under
  their names there, with the types of section 3 of the specification.
  \<open>hostessStat\<close> is \<open>fSt.st.hostessStat\<close> (the states of the pilot and of the
  passengers, which the hostess never accesses, are left out). The counters are C
  \<open>int\<close>s; they count passengers and flights and are read here as integers.
  \<open>nPassengersInFlight\<close> is the array of the passengers per flight; its length is
  declared in the missing header, and the model keeps one cell per index.
\<close>

record full_stat =
  hostessStat :: hostess_stat
  nPassInQueue :: int
  nPassInFlight :: int
  totalPassBoarded :: int
  nFlight :: int
  nPassengersInFlight :: "int \<Rightarrow> int"
  finished :: bool

text \<open>The semaphores of the set, by the names of their identifiers in \<open>sh\<close>.\<close>

datatype sem =
  mutex | readyForBoarding | passengersInQueue | passengersWaitInQueue | idShown | readyToFlight

subsection \<open>The process, its environment and its trace\<close>

text \<open>
  Modelled from the spec: \<open>semDown\<close> and \<open>semUp\<close> (semaphore.h) are not among the
  sources. By section 6 of the specification a down acquires (it blocks until it can
  decrement) and an up releases; by the tests of the source either returns \<open>-1\<close> on
  error. What a call returns, and when, is up to the library and the other processes:
  the model takes it from a script of replies. In a reply, \<open>ret\<close> is the value the call
  returns and \<open>others\<close> is what the other processes have done to the region since the
  hostess last held the lock. The hostess looks at the region only while it holds the
  lock, so \<open>others\<close> takes effect when a down of \<open>mutex\<close> returns, and the region
  logged with that call is the region as the hostess finds it.
\<close>

record reply =
  ret :: int
  others :: "full_stat \<Rightarrow> full_stat"

datatype exit_status = EXIT_SUCCESS | EXIT_FAILURE

text \<open>
  The calls of the hostess. A semaphore call carries the value it returned, or \<open>None\<close>
  when it has not returned.
\<close>

datatype event =
    SemDown sem "int option"
  | SemUp sem "int option"
  | SaveState
  | SavePassengerChecked
  | SaveFlightDeparted
  | Perror string
  | Exit exit_status

record world =
  fSt :: full_stat
  env :: "reply list"
  trace :: "(event \<times> full_stat) list"

datatype halt = Exited exit_status | Waiting

datatype 'a res = Ret 'a | Stop halt

type_synonym 'a proc = "world \<Rightarrow> 'a res \<times> world"

definition return :: "'a \<Rightarrow> 'a proc" where
  "return a w = (Ret a, w)"

definition bind :: "'a proc \<Rightarrow> ('a \<Rightarrow> 'b proc) \<Rightarrow> 'b proc" where
  "bind m f w = (case m w of (Ret a, w') \<Rightarrow> f a w' | (Stop h, w') \<Rightarrow> (Stop h, w'))"

definition emit :: "event \<Rightarrow> world \<Rightarrow> world" where
  "emit e w = w\<lparr>trace := trace w @ [(e, fSt w)]\<rparr>"

definition semDown :: "sem \<Rightarrow> int proc" where
  "semDown sm w =
     (case env w of
        [] \<Rightarrow> (Stop Waiting, emit (SemDown sm None) w)
      | r # rs \<Rightarrow>
          (Ret (ret r),
           emit (SemDown sm (Some (ret r)))
             (w\<lparr>fSt := (if sm = mutex then others r (fSt w) else fSt w), env := rs\<rparr>)))"

definition semUp :: "sem \<Rightarrow> int proc" where
  "semUp sm w =
     (case env w of
        [] \<Rightarrow> (Stop Waiting, emit (SemUp sm None) w)
      | r # rs \<Rightarrow> (Ret (ret r), emit (SemUp sm (Some (ret r))) (w\<lparr>env := rs\<rparr>)))"

text \<open>An assignment to the region, and a read of it.\<close>

definition store :: "(full_stat \<Rightarrow> full_stat) \<Rightarrow> unit proc" where
  "store f w = (Ret (), w\<lparr>fSt := f (fSt w)\<rparr>)"

definition load :: "(full_stat \<Rightarrow> 'a) \<Rightarrow> 'a proc" where
  "load f w = (Ret (f (fSt w)), w)"

text \<open>
  Modelled from the spec: \<open>saveState\<close>, \<open>savePassengerChecked\<close> and
  \<open>saveFlightDeparted\<close> (logging.h) are not among the sources. By section 6 of the
  specification they record a snapshot of the region and do nothing else: each is a
  call in the trace, with the region it was given.
\<close>

definition saveState :: "unit proc" where
  "saveState w = (Ret (), emit SaveState w)"

definition savePassengerChecked :: "unit proc" where
  "savePassengerChecked w = (Ret (), emit SavePassengerChecked w)"

definition saveFlightDeparted :: "unit proc" where
  "saveFlightDeparted w = (Ret (), emit SaveFlightDeparted w)"

definition perror :: "string \<Rightarrow> unit proc" where
  "perror msg w = (Ret (), emit (Perror msg) w)"

definition exit :: "exit_status \<Rightarrow> 'a proc" where
  "exit st w = (Stop (Exited st), emit (Exit st) w)"

definition down_error :: string where
  "down_error = ''error on the down operation for semaphore access (HT)''"

definition up_error :: string where
  "up_error = ''error on the up operation for semaphore access (HT)''"

text \<open>
  The test that follows every operation on \<open>mutex\<close> in the source:
  \<^verbatim>\<open>if (semDown (semgid, sh->mutex) == -1) { perror (...); exit (EXIT_FAILURE); }\<close>
\<close>

definition or_die :: "string \<Rightarrow> int \<Rightarrow> unit proc" where
  "or_die msg r = (if r = -1 then bind (perror msg) (\<lambda>_. exit EXIT_FAILURE) else return ())"

subsection \<open>The operations of the hostess\<close>

definition waitForNextFlight :: "unit proc" where
  "waitForNextFlight =
     bind (semDown mutex) (\<lambda>r.
     bind (or_die down_error r) (\<lambda>_.
     bind (store (\<lambda>s. s\<lparr>hostessStat := WAIT_FOR_FLIGHT\<rparr>)) (\<lambda>_.
     bind saveState (\<lambda>_.
     bind (semUp mutex) (\<lambda>r.
     bind (or_die up_error r) (\<lambda>_.
     bind (semDown readyForBoarding) (\<lambda>_.
     return ())))))))"

definition waitForPassenger :: "unit proc" where
  "waitForPassenger =
     bind (semDown mutex) (\<lambda>r.
     bind (or_die down_error r) (\<lambda>_.
     bind (store (\<lambda>s. s\<lparr>hostessStat := WAIT_FOR_PASSENGER\<rparr>)) (\<lambda>_.
     bind saveState (\<lambda>_.
     bind (semUp mutex) (\<lambda>r.
     bind (or_die up_error r) (\<lambda>_.
     bind (semDown passengersInQueue) (\<lambda>_.
     return ())))))))"

text \<open>
  The getters \<open>nPassengersInFlight()\<close> and \<open>nPassengersInQueue()\<close> of the source. The
  first shares its name with the array of the region, hence the suffix.
\<close>

definition nPassengersInFlight_get :: "full_stat \<Rightarrow> int" where
  "nPassengersInFlight_get s = nPassInFlight s"

definition nPassengersInQueue_get :: "full_stat \<Rightarrow> int" where
  "nPassengersInQueue_get s = nPassInQueue s"

definition checkPassport :: "probConst \<Rightarrow> bool proc" where
  "checkPassport c =
     bind (semDown mutex) (\<lambda>r.
     bind (or_die down_error r) (\<lambda>_.
     bind (store (\<lambda>s. s\<lparr>hostessStat := CHECK_PASSPORT\<rparr>)) (\<lambda>_.
     bind saveState (\<lambda>_.
     bind (semUp mutex) (\<lambda>r.
     bind (or_die up_error r) (\<lambda>_.
     bind (semUp passengersWaitInQueue) (\<lambda>_.
     bind (semDown idShown) (\<lambda>_.
     bind (semDown mutex) (\<lambda>r.
     bind (or_die down_error r) (\<lambda>_.
     bind (store (\<lambda>s. s\<lparr>nPassInQueue := nPassInQueue s - 1\<rparr>)) (\<lambda>_.
     bind (store (\<lambda>s. s\<lparr>nPassInFlight := nPassInFlight s + 1\<rparr>)) (\<lambda>_.
     bind (store (\<lambda>s. s\<lparr>totalPassBoarded := totalPassBoarded s + 1\<rparr>)) (\<lambda>_.
     bind (load (\<lambda>s. nPassengersInFlight_get s = MAXFC c
                      \<or> (nPassengersInFlight_get s \<ge> MINFC c \<and> nPassengersInQueue_get s = 0)
                      \<or> totalPassBoarded s = N c)) (\<lambda>last.
     bind savePassengerChecked (\<lambda>_.
     bind saveState (\<lambda>_.
     bind (semUp mutex) (\<lambda>r.
     bind (or_die up_error r) (\<lambda>_.
     return last))))))))))))))))))"

definition signalReadyToFlight :: "probConst \<Rightarrow> unit proc" where
  "signalReadyToFlight c =
     bind (semDown mutex) (\<lambda>r.
     bind (or_die down_error r) (\<lambda>_.
     bind (store (\<lambda>s. s\<lparr>hostessStat := READY_TO_FLIGHT\<rparr>)) (\<lambda>_.
     bind (store (\<lambda>s. s\<lparr>nPassengersInFlight :=
                          (nPassengersInFlight s)(nFlight s - 1 := nPassInFlight s)\<rparr>)) (\<lambda>_.
     bind (store (\<lambda>s. s\<lparr>finished := (totalPassBoarded s = N c)\<rparr>)) (\<lambda>_.
     bind saveState (\<lambda>_.
     bind saveFlightDeparted (\<lambda>_.
     bind (semUp mutex) (\<lambda>r.
     bind (or_die up_error r) (\<lambda>_.
     bind (semUp readyToFlight) (\<lambda>_.
     return ()))))))))))"

subsection \<open>The life cycle (lines 111--122 of main)\<close>

text \<open>
  \<^verbatim>\<open>
  int nPassengers=0;
  while(nPassengers < N ) {
      waitForNextFlight();
      do {
          waitForPassenger();
          lastPassengerInFlight = checkPassport();
          nPassengers++;
      } while (!lastPassengerInFlight);
      signalReadyToFlight();
  }
  \<close>
  Every operation consumes at least one reply of the script when it returns, which is
  what makes the two loops of the model terminate. Both loops return the value of the
  local counter \<open>nPassengers\<close>. The start of \<open>main\<close> (its arguments, the connection to
  the semaphore set and to the region) and its end (the detachment of the region) are
  left out.
\<close>

lemma bind_cong [fundef_cong]:
  "m w = m' w' \<Longrightarrow> (\<And>a w1. m' w' = (Ret a, w1) \<Longrightarrow> f a w1 = f' a w1)
     \<Longrightarrow> bind m f w = bind m' f' w'"
  by (auto simp: bind_def split: prod.splits res.splits)

lemma bind_Ret:
  "bind m f w = (Ret b, w') \<longleftrightarrow> (\<exists>a w1. m w = (Ret a, w1) \<and> f a w1 = (Ret b, w'))"
  by (auto simp: bind_def split: prod.splits res.splits)

lemma semDown_Ret:
  "semDown sm w = (Ret a, w') \<Longrightarrow> length (env w') < length (env w)"
  by (auto simp: semDown_def emit_def split: list.splits)

lemma semUp_Ret:
  "semUp sm w = (Ret a, w') \<Longrightarrow> length (env w') < length (env w)"
  by (auto simp: semUp_def emit_def split: list.splits)

lemma or_die_Ret: "or_die msg r w = (Ret a, w') \<Longrightarrow> w' = w"
  by (auto simp: or_die_def bind_def perror_def exit_def return_def split: if_splits)

lemma store_Ret: "store f w = (Ret a, w') \<Longrightarrow> env w' = env w"
  by (auto simp: store_def)

lemma load_Ret: "load f w = (Ret a, w') \<Longrightarrow> env w' = env w"
  by (auto simp: load_def)

lemma save_Ret:
  "saveState w = (Ret a, w') \<Longrightarrow> env w' = env w"
  "savePassengerChecked w = (Ret a, w') \<Longrightarrow> env w' = env w"
  "saveFlightDeparted w = (Ret a, w') \<Longrightarrow> env w' = env w"
  by (auto simp: saveState_def savePassengerChecked_def saveFlightDeparted_def emit_def)

lemma waitForNextFlight_env:
  "waitForNextFlight w = (Ret a, w') \<Longrightarrow> length (env w') < length (env w)"
  unfolding waitForNextFlight_def bind_Ret
  by (auto simp: return_def dest!: semDown_Ret semUp_Ret or_die_Ret store_Ret save_Ret)

lemma waitForPassenger_env:
  "waitForPassenger w = (Ret a, w') \<Longrightarrow> length (env w') < length (env w)"
  unfolding waitForPassenger_def bind_Ret
  by (auto simp: return_def dest!: semDown_Ret semUp_Ret or_die_Ret store_Ret save_Ret)

lemma checkPassport_env:
  "checkPassport c w = (Ret a, w') \<Longrightarrow> length (env w') < length (env w)"
  unfolding checkPassport_def bind_Ret
  by (auto simp: return_def dest!: semDown_Ret semUp_Ret or_die_Ret store_Ret save_Ret load_Ret)

lemma signalReadyToFlight_env:
  "signalReadyToFlight c w = (Ret a, w') \<Longrightarrow> length (env w') < length (env w)"
  unfolding signalReadyToFlight_def bind_Ret
  by (auto simp: return_def dest!: semDown_Ret semUp_Ret or_die_Ret store_Ret save_Ret)

function boarding :: "probConst \<Rightarrow> int \<Rightarrow> int proc" where
  "boarding c nPassengers w =
     bind waitForPassenger (\<lambda>_.
     bind (checkPassport c) (\<lambda>lastPassengerInFlight w'.
       if \<not> lastPassengerInFlight then boarding c (nPassengers + 1) w'
       else return (nPassengers + 1) w')) w"
  by pat_completeness auto
termination
proof (relation "measure (\<lambda>(c, n, w). length (env w))")
  fix c :: probConst and w w1 w2 :: world and u :: unit and l :: bool
  assume "waitForPassenger w = (Ret u, w1)" and "checkPassport c w1 = (Ret l, w2)"
  then have "length (env w2) < length (env w)"
    using waitForPassenger_env checkPassport_env by fastforce
  then show "((c, n + 1, w2), (c, n, w)) \<in> measure (\<lambda>(c, n, w). length (env w))" for n :: int
    by simp
qed simp

declare boarding.simps [simp del]

lemma boarding_env:
  "boarding c n w = (Ret a, w') \<Longrightarrow> length (env w') < length (env w)"
proof (induction c n w rule: boarding.induct)
  case (1 c n w)
  from "1.prems" obtain u w1 l w2 where
    wfp: "waitForPassenger w = (Ret u, w1)" and cp: "checkPassport c w1 = (Ret l, w2)"
    and rest: "(if \<not> l then boarding c (n + 1) w2 else return (n + 1) w2) = (Ret a, w')"
    by (subst (asm) boarding.simps) (auto simp: bind_Ret)
  have less: "length (env w2) < length (env w)"
    using waitForPassenger_env [OF wfp] checkPassport_env [OF cp] by simp
  show ?case
  proof (cases l)
    case True
    with rest less show ?thesis by (simp add: return_def)
  next
    case False
    with rest have "boarding c (n + 1) w2 = (Ret a, w')" by simp
    with "1.IH" [OF wfp cp] False less show ?thesis by fastforce
  qed
qed

function hostess_loop :: "probConst \<Rightarrow> int \<Rightarrow> int proc" where
  "hostess_loop c nPassengers w =
     (if nPassengers < N c then
        bind waitForNextFlight (\<lambda>_.
        bind (boarding c nPassengers) (\<lambda>nPassengers'.
        bind (signalReadyToFlight c) (\<lambda>_ w'.
        hostess_loop c nPassengers' w'))) w
      else return nPassengers w)"
  by pat_completeness auto
termination
proof (relation "measure (\<lambda>(c, n, w). length (env w))")
  fix c :: probConst and n n' :: int and w w1 w2 w3 :: world and u u' :: unit
  assume "waitForNextFlight w = (Ret u, w1)" and "boarding c n w1 = (Ret n', w2)"
    and "signalReadyToFlight c w2 = (Ret u', w3)"
  then have "length (env w3) < length (env w)"
    using waitForNextFlight_env boarding_env signalReadyToFlight_env by fastforce
  then show "((c, n', w3), (c, n, w)) \<in> measure (\<lambda>(c, n, w). length (env w))"
    by simp
qed simp

declare hostess_loop.simps [simp del]

text \<open>
  A run starts from a region \<open>s\<close> and a script \<open>rs\<close>, with an empty trace.
\<close>

definition run :: "'a proc \<Rightarrow> full_stat \<Rightarrow> reply list \<Rightarrow> 'a res \<times> world" where
  "run m s rs = m \<lparr>fSt = s, env = rs, trace = []\<rparr>"

definition hostess_life_cycle :: "probConst \<Rightarrow> int proc" where
  "hostess_life_cycle c = hostess_loop c 0"

subsection \<open>Observations on a trace\<close>

text \<open>
  \<open>lock_held held t\<close>: does the hostess hold \<open>mutex\<close> after the calls of \<open>t\<close>, when
  \<open>held\<close> says whether it held it before? A down of \<open>mutex\<close> that returned without error
  acquires the lock, an up that returned without error releases it.
\<close>

fun lock_held :: "bool \<Rightarrow> (event \<times> full_stat) list \<Rightarrow> bool" where
  "lock_held held [] = held"
| "lock_held held ((SemDown sm r, s) # es) =
     (if sm = mutex then lock_held (r \<noteq> None \<and> r \<noteq> Some (- 1)) es else lock_held held es)"
| "lock_held held ((SemUp sm r, s) # es) =
     (if sm = mutex then lock_held (held \<and> (r = None \<or> r = Some (- 1))) es
      else lock_held held es)"
| "lock_held held (e # es) = lock_held held es"

text \<open>
  \<open>no_wait_in_cs held t\<close>: no down of a semaphore other than \<open>mutex\<close> is called in \<open>t\<close>
  while the hostess holds \<open>mutex\<close>.
\<close>

fun no_wait_in_cs :: "bool \<Rightarrow> (event \<times> full_stat) list \<Rightarrow> bool" where
  "no_wait_in_cs held [] = True"
| "no_wait_in_cs held ((SemDown sm r, s) # es) =
     (if sm = mutex then no_wait_in_cs (r \<noteq> None \<and> r \<noteq> Some (- 1)) es
      else \<not> held \<and> no_wait_in_cs held es)"
| "no_wait_in_cs held ((SemUp sm r, s) # es) =
     (if sm = mutex then no_wait_in_cs (held \<and> (r = None \<or> r = Some (- 1))) es
      else no_wait_in_cs held es)"
| "no_wait_in_cs held (e # es) = no_wait_in_cs held es"

text \<open>
  \<open>quiet_outside_cs held p t\<close>: the hostess changes the region only while it holds
  \<open>mutex\<close>. At every call of \<open>t\<close> made without the lock the region is the same as at
  the call before (\<open>p\<close> is the region before the first call). The region may differ
  when a down of \<open>mutex\<close> returns: this is where the other processes act.
\<close>

fun quiet_outside_cs :: "bool \<Rightarrow> full_stat \<Rightarrow> (event \<times> full_stat) list \<Rightarrow> bool" where
  "quiet_outside_cs held p [] = True"
| "quiet_outside_cs held p ((SemDown sm r, s) # es) =
     (if sm = mutex then quiet_outside_cs (r \<noteq> None \<and> r \<noteq> Some (- 1)) s es
      else (held \<or> s = p) \<and> quiet_outside_cs held s es)"
| "quiet_outside_cs held p ((SemUp sm r, s) # es) =
     (if sm = mutex
      then (held \<or> s = p) \<and> quiet_outside_cs (held \<and> (r = None \<or> r = Some (- 1))) s es
      else (held \<or> s = p) \<and> quiet_outside_cs held s es)"
| "quiet_outside_cs held p ((e, s) # es) = ((held \<or> s = p) \<and> quiet_outside_cs held s es)"

text \<open>The calls on the five channels (the semaphores other than \<open>mutex\<close>), in order.\<close>

datatype sem_call = Down sem | Up sem

fun channel_calls :: "(event \<times> full_stat) list \<Rightarrow> sem_call list" where
  "channel_calls [] = []"
| "channel_calls ((SemDown sm r, s) # es) =
     (if sm = mutex then channel_calls es else Down sm # channel_calls es)"
| "channel_calls ((SemUp sm r, s) # es) =
     (if sm = mutex then channel_calls es else Up sm # channel_calls es)"
| "channel_calls (e # es) = channel_calls es"

text \<open>The regions logged by \<open>saveFlightDeparted\<close>, one per flight, in order.\<close>

definition departures :: "(event \<times> full_stat) list \<Rightarrow> full_stat list" where
  "departures t = map snd (filter (\<lambda>(e, x). e = SaveFlightDeparted) t)"

lemma departures_simps [simp]:
  "departures [] = []"
  "departures (t @ u) = departures t @ departures u"
  "departures ((e, x) # t) = (if e = SaveFlightDeparted then x # departures t else departures t)"
  by (simp_all add: departures_def)

lemma list_all_butlast: "list_all P xs \<Longrightarrow> list_all P (butlast xs)"
  by (auto simp: list_all_iff dest: in_set_butlastD)

text \<open>Has the procedure returned, rather than stopped?\<close>

definition returned :: "'a res \<times> world \<Rightarrow> bool" where
  "returned x = (case fst x of Ret a \<Rightarrow> True | Stop h \<Rightarrow> False)"

text \<open>Replies used in the examples: a call that succeeds, a call that reports an error.\<close>

definition granted :: reply where
  "granted = \<lparr>ret = 0, others = (\<lambda>s. s)\<rparr>"

definition failed :: reply where
  "failed = \<lparr>ret = - 1, others = (\<lambda>s. s)\<rparr>"

text \<open>
  The scenario of the specification: \<open>N = 10\<close>, \<open>MINFC = 3\<close>, \<open>MAXFC = 5\<close>; flights of 5
  and 3 passengers have left, the third flight has one passenger on board and the last
  passenger is in the queue.
\<close>

definition c10 :: probConst where
  "c10 = \<lparr>N = 10, MINFC = 3, MAXFC = 5\<rparr>"

definition flight3 :: full_stat where
  "flight3 = \<lparr>hostessStat = WAIT_FOR_PASSENGER, nPassInQueue = 1, nPassInFlight = 1,
     totalPassBoarded = 9, nFlight = 3, nPassengersInFlight = (\<lambda>_. 0)(0 := 5, 1 := 3),
     finished = False\<rparr>"

subsection \<open>Each operation on its normal path\<close>

text \<open>How each primitive composes with what follows it.\<close>

lemma bind_semDown:
  "bind (semDown sm) f w =
     (case env w of
        [] \<Rightarrow> (Stop Waiting, emit (SemDown sm None) w)
      | r # rs \<Rightarrow>
          f (ret r) (emit (SemDown sm (Some (ret r)))
             (w\<lparr>fSt := (if sm = mutex then others r (fSt w) else fSt w), env := rs\<rparr>)))"
  by (simp add: bind_def semDown_def split: list.splits)

lemma bind_semUp:
  "bind (semUp sm) f w =
     (case env w of
        [] \<Rightarrow> (Stop Waiting, emit (SemUp sm None) w)
      | r # rs \<Rightarrow> f (ret r) (emit (SemUp sm (Some (ret r))) (w\<lparr>env := rs\<rparr>)))"
  by (simp add: bind_def semUp_def split: list.splits)

lemma bind_or_die:
  "bind (or_die msg r) f w =
     (if r = - 1
      then (Stop (Exited EXIT_FAILURE), emit (Exit EXIT_FAILURE) (emit (Perror msg) w))
      else f () w)"
  by (simp add: bind_def or_die_def perror_def exit_def return_def)

lemma bind_store: "bind (store g) f w = f () (w\<lparr>fSt := g (fSt w)\<rparr>)"
  by (simp add: bind_def store_def)

lemma bind_load: "bind (load g) f w = f (g (fSt w)) w"
  by (simp add: bind_def load_def)

lemma bind_save:
  "bind saveState f w = f () (emit SaveState w)"
  "bind savePassengerChecked f w = f () (emit SavePassengerChecked w)"
  "bind saveFlightDeparted f w = f () (emit SaveFlightDeparted w)"
  by (simp_all add: bind_def saveState_def savePassengerChecked_def saveFlightDeparted_def)

lemmas steps = bind_semDown bind_semUp bind_or_die bind_store bind_load bind_save return_def
  emit_def nPassengersInFlight_get_def nPassengersInQueue_get_def

lemmas ops = waitForNextFlight_def waitForPassenger_def checkPassport_def
  signalReadyToFlight_def

lemma waitForNextFlight_normal:
  assumes "ret r1 \<noteq> - 1" "ret r2 \<noteq> - 1"
  shows "waitForNextFlight \<lparr>fSt = s, env = r1 # r2 # r3 # rest, trace = t\<rparr> =
    (let s1 = others r1 s; s2 = s1\<lparr>hostessStat := WAIT_FOR_FLIGHT\<rparr> in
     (Ret (), \<lparr>fSt = s2, env = rest,
        trace = t @
          [(SemDown mutex (Some (ret r1)), s1), (SaveState, s2),
           (SemUp mutex (Some (ret r2)), s2),
           (SemDown readyForBoarding (Some (ret r3)), s2)]\<rparr>))"
  using assms by (simp add: waitForNextFlight_def steps Let_def)

lemma waitForPassenger_normal:
  assumes "ret r1 \<noteq> - 1" "ret r2 \<noteq> - 1"
  shows "waitForPassenger \<lparr>fSt = s, env = r1 # r2 # r3 # rest, trace = t\<rparr> =
    (let s1 = others r1 s; s2 = s1\<lparr>hostessStat := WAIT_FOR_PASSENGER\<rparr> in
     (Ret (), \<lparr>fSt = s2, env = rest,
        trace = t @
          [(SemDown mutex (Some (ret r1)), s1), (SaveState, s2),
           (SemUp mutex (Some (ret r2)), s2),
           (SemDown passengersInQueue (Some (ret r3)), s2)]\<rparr>))"
  using assms by (simp add: waitForPassenger_def steps Let_def)

lemma checkPassport_normal:
  assumes "ret r1 \<noteq> - 1" "ret r2 \<noteq> - 1" "ret r5 \<noteq> - 1" "ret r6 \<noteq> - 1"
  shows "checkPassport c \<lparr>fSt = s, env = r1 # r2 # r3 # r4 # r5 # r6 # rest, trace = t\<rparr> =
    (let s1 = others r1 s; s2 = s1\<lparr>hostessStat := CHECK_PASSPORT\<rparr>;
         s3 = others r5 s2;
         s4 = s3\<lparr>nPassInQueue := nPassInQueue s3 - 1, nPassInFlight := nPassInFlight s3 + 1,
                 totalPassBoarded := totalPassBoarded s3 + 1\<rparr> in
     (Ret (nPassInFlight s4 = MAXFC c \<or> (MINFC c \<le> nPassInFlight s4 \<and> nPassInQueue s4 = 0)
           \<or> totalPassBoarded s4 = N c),
      \<lparr>fSt = s4, env = rest,
        trace = t @
          [(SemDown mutex (Some (ret r1)), s1), (SaveState, s2),
           (SemUp mutex (Some (ret r2)), s2),
           (SemUp passengersWaitInQueue (Some (ret r3)), s2),
           (SemDown idShown (Some (ret r4)), s2),
           (SemDown mutex (Some (ret r5)), s3),
           (SavePassengerChecked, s4), (SaveState, s4),
           (SemUp mutex (Some (ret r6)), s4)]\<rparr>))"
  using assms by (simp add: checkPassport_def steps Let_def)

lemma signalReadyToFlight_normal:
  assumes "ret r1 \<noteq> - 1" "ret r2 \<noteq> - 1"
  shows "signalReadyToFlight c \<lparr>fSt = s, env = r1 # r2 # r3 # rest, trace = t\<rparr> =
    (let s1 = others r1 s;
         s2 = s1\<lparr>hostessStat := READY_TO_FLIGHT,
                 nPassengersInFlight := (nPassengersInFlight s1)(nFlight s1 - 1 := nPassInFlight s1),
                 finished := (totalPassBoarded s1 = N c)\<rparr> in
     (Ret (), \<lparr>fSt = s2, env = rest,
        trace = t @
          [(SemDown mutex (Some (ret r1)), s1), (SaveState, s2), (SaveFlightDeparted, s2),
           (SemUp mutex (Some (ret r2)), s2),
           (SemUp readyToFlight (Some (ret r3)), s2)]\<rparr>))"
  using assms by (simp add: signalReadyToFlight_def steps Let_def)

section \<open>The operations, one call at a time\<close>

subsection \<open>checkPassport\<close>

text \<open>
  Claim C1. In a call of \<open>checkPassport\<close> that goes through both critical sections, let
  \<open>s3\<close> be the region as the hostess finds it when it acquires the lock for the second
  time. The value returned is the disjunction
  \<open>nPassInFlight = MAXFC \<or> (nPassInFlight \<ge> MINFC \<and> nPassInQueue = 0) \<or> totalPassBoarded = N\<close>
  on the region as the call leaves it, whose three counters are those of \<open>s3\<close> after the
  decrement of \<open>nPassInQueue\<close> and the increments of \<open>nPassInFlight\<close> and
  \<open>totalPassBoarded\<close>. The replies to the two channel operations (\<open>r3\<close>, \<open>r4\<close>) play
  no part. The witness is the scenario of the specification: the tenth passenger is the
  second of the third flight, and the call returns true with 2 passengers on board, below
  \<open>MINFC = 3\<close>.
\<close>

theorem checkPassport_last_of_flight:
  assumes "ret r1 \<noteq> - 1" and "ret r2 \<noteq> - 1" and "ret r5 \<noteq> - 1" and "ret r6 \<noteq> - 1"
  shows "(let s3 = others r5 ((others r1 s)\<lparr>hostessStat := CHECK_PASSPORT\<rparr>);
              (result, w') = run (checkPassport c) s (r1 # r2 # r3 # r4 # r5 # r6 # rest)
          in result = Ret (nPassInFlight (fSt w') = MAXFC c
                           \<or> (MINFC c \<le> nPassInFlight (fSt w') \<and> nPassInQueue (fSt w') = 0)
                           \<or> totalPassBoarded (fSt w') = N c)
             \<and> nPassInQueue (fSt w') = nPassInQueue s3 - 1
             \<and> nPassInFlight (fSt w') = nPassInFlight s3 + 1
             \<and> totalPassBoarded (fSt w') = totalPassBoarded s3 + 1)"
proof -
  from checkPassport_normal [OF assms, of c s r3 r4 rest "[]"] show ?thesis
    by (simp add: run_def Let_def)
qed

theorem checkPassport_last_of_flight_witness:
  "ret granted \<noteq> - 1
   \<and> fst (run (checkPassport c10) flight3 (replicate 6 granted)) = Ret True
   \<and> nPassInFlight (fSt (snd (run (checkPassport c10) flight3 (replicate 6 granted)))) = 2
   \<and> totalPassBoarded (fSt (snd (run (checkPassport c10) flight3 (replicate 6 granted)))) = N c10
   \<and> 2 < MINFC c10"
proof -
  have ok: "ret granted \<noteq> - 1"
    by (simp add: granted_def)
  have script: "replicate 6 granted = granted # granted # granted # granted # granted # granted # []"
    by (simp add: numeral_eq_Suc)
  from checkPassport_last_of_flight [OF ok ok ok ok, of flight3 c10 granted granted "[]"]
  show ?thesis
    unfolding script
    by (simp add: Let_def split_def granted_def flight3_def c10_def)
qed

text \<open>
  Claim C2. With \<open>s3\<close> as above, the second critical section of \<open>checkPassport\<close> leaves
  the region equal to \<open>s3\<close> but for three counters: \<open>nPassInQueue\<close> is one less,
  \<open>nPassInFlight\<close> and \<open>totalPassBoarded\<close> are one more. The state of the hostess, the
  flight number, the passengers per flight and the flag \<open>finished\<close> are those of \<open>s3\<close>.
\<close>

theorem checkPassport_counters:
  assumes "ret r1 \<noteq> - 1" and "ret r2 \<noteq> - 1" and "ret r5 \<noteq> - 1" and "ret r6 \<noteq> - 1"
  shows "(let s3 = others r5 ((others r1 s)\<lparr>hostessStat := CHECK_PASSPORT\<rparr>);
              w' = snd (run (checkPassport c) s (r1 # r2 # r3 # r4 # r5 # r6 # rest))
          in fSt w' = s3\<lparr>nPassInQueue := nPassInQueue s3 - 1,
                          nPassInFlight := nPassInFlight s3 + 1,
                          totalPassBoarded := totalPassBoarded s3 + 1\<rparr>
             \<and> trace w' ! 5 = (SemDown mutex (Some (ret r5)), s3)
             \<and> trace w' ! 8 = (SemUp mutex (Some (ret r6)), fSt w')
             \<and> length (trace w') = 9)"
proof -
  from checkPassport_normal [OF assms, of c s r3 r4 rest "[]"] show ?thesis
    by (simp add: run_def Let_def)
qed

theorem checkPassport_counters_witness:
  "ret granted \<noteq> - 1
   \<and> fSt (snd (run (checkPassport c10) flight3 (replicate 6 granted)))
       = flight3\<lparr>hostessStat := CHECK_PASSPORT, nPassInQueue := 0, nPassInFlight := 2,
                  totalPassBoarded := 10\<rparr>"
proof -
  have ok: "ret granted \<noteq> - 1"
    by (simp add: granted_def)
  have script: "replicate 6 granted = granted # granted # granted # granted # granted # granted # []"
    by (simp add: numeral_eq_Suc)
  from checkPassport_counters [OF ok ok ok ok, of flight3 c10 granted granted "[]"]
  show ?thesis
    unfolding script
    by (simp add: Let_def granted_def flight3_def)
qed

text \<open>
  Claim C9. Whatever the script, the channel operations of a call of \<open>checkPassport\<close>
  are, in this order, one up of \<open>passengersWaitInQueue\<close> (the admission of one passenger
  from the queue) and then one down of \<open>idShown\<close>; a call stopped early has made a
  prefix of the two. A call that returns has made exactly the two.
\<close>

theorem checkPassport_admit_then_id:
  "channel_calls (trace (snd (run (checkPassport c) s rs)))
     \<in> {[], [Up passengersWaitInQueue], [Up passengersWaitInQueue, Down idShown]}
   \<and> (returned (run (checkPassport c) s rs) \<longrightarrow>
        channel_calls (trace (snd (run (checkPassport c) s rs)))
          = [Up passengersWaitInQueue, Down idShown])"
  by (auto simp: returned_def checkPassport_def run_def steps split: list.splits)

theorem checkPassport_admit_then_id_witness:
  "returned (run (checkPassport c10) flight3 (replicate 6 granted))
   \<and> channel_calls (trace (snd (run (checkPassport c10) flight3 (replicate 6 granted))))
       = [Up passengersWaitInQueue, Down idShown]"
proof -
  have "returned (run (checkPassport c10) flight3 (replicate 6 granted))"
    by (simp add: returned_def run_def checkPassport_def steps granted_def numeral_eq_Suc)
  with checkPassport_admit_then_id [of c10 flight3 "replicate 6 granted"] show ?thesis
    by blast
qed

subsection \<open>signalReadyToFlight\<close>

text \<open>
  Claim C4. A call of \<open>signalReadyToFlight\<close> whose two operations on the lock succeed
  does this, in this order: it acquires the lock and finds the region \<open>s1\<close>; it sets the
  state of the hostess to \<open>READY_TO_FLIGHT\<close>, records \<open>nPassInFlight\<close> in the entry of
  the flight that is loading, and sets \<open>finished\<close> to \<open>totalPassBoarded = N\<close>; it
  saves the state and the departure of the flight; it releases the lock; and only then
  does it raise \<open>readyToFlight\<close>. Flights are numbered from 1 by \<open>nFlight\<close> and the array
  is indexed from 0, so the entry of the flight that is loading is the one of index
  \<open>nFlight - 1\<close>.
\<close>

theorem signalReadyToFlight_effect:
  assumes "ret r1 \<noteq> - 1" and "ret r2 \<noteq> - 1"
  shows "(let s1 = others r1 s;
              s2 = s1\<lparr>hostessStat := READY_TO_FLIGHT,
                      nPassengersInFlight :=
                        (nPassengersInFlight s1)(nFlight s1 - 1 := nPassInFlight s1),
                      finished := (totalPassBoarded s1 = N c)\<rparr>
          in run (signalReadyToFlight c) s (r1 # r2 # r3 # rest) =
               (Ret (),
                \<lparr>fSt = s2, env = rest,
                 trace = [(SemDown mutex (Some (ret r1)), s1),
                          (SaveState, s2), (SaveFlightDeparted, s2),
                          (SemUp mutex (Some (ret r2)), s2),
                          (SemUp readyToFlight (Some (ret r3)), s2)]\<rparr>))"
proof -
  from signalReadyToFlight_normal [OF assms, of c s r3 rest "[]"] show ?thesis
    by (simp add: run_def Let_def)
qed

theorem signalReadyToFlight_effect_witness:
  "ret granted \<noteq> - 1
   \<and> fst (run (signalReadyToFlight c10) flight3 [granted, granted, granted]) = Ret ()
   \<and> hostessStat (fSt (snd (run (signalReadyToFlight c10) flight3 [granted, granted, granted])))
       = READY_TO_FLIGHT
   \<and> nPassengersInFlight
        (fSt (snd (run (signalReadyToFlight c10) flight3 [granted, granted, granted]))) 2 = 1
   \<and> \<not> finished (fSt (snd (run (signalReadyToFlight c10) flight3 [granted, granted, granted])))
   \<and> map fst (trace (snd (run (signalReadyToFlight c10) flight3 [granted, granted, granted])))
       = [SemDown mutex (Some 0), SaveState, SaveFlightDeparted, SemUp mutex (Some 0),
          SemUp readyToFlight (Some 0)]"
proof -
  have ok: "ret granted \<noteq> - 1"
    by (simp add: granted_def)
  from signalReadyToFlight_effect [OF ok ok, of flight3 c10 granted "[]"] show ?thesis
    by (simp add: Let_def granted_def flight3_def c10_def)
qed

text \<open>
  Claim C10. Whatever the script, \<open>signalReadyToFlight\<close> leaves the region as it found
  it on entry of its critical section (\<open>s1\<close> below; the region it was called with when
  the script is empty), but for the state of the hostess, the entry of index
  \<open>nFlight - 1\<close> of the passengers per flight, and \<open>finished\<close>. The passengers in the
  queue, the passengers in the flight, the passengers boarded and the flight number are
  unchanged: the count of the flight is not reset and the flight number is not advanced.
  The operation that the hostess runs next, \<open>waitForNextFlight\<close>, changes nothing but
  the state of the hostess, so neither update is made by the hostess before the next
  boarding.
\<close>

theorem signalReadyToFlight_frame:
  "(let s1 = (case rs of [] \<Rightarrow> s | r # _ \<Rightarrow> others r s);
        s' = fSt (snd (run (signalReadyToFlight c) s rs));
        s'' = fSt (snd (run waitForNextFlight s rs))
    in s' = s1\<lparr>hostessStat := hostessStat s',
                nPassengersInFlight :=
                  (nPassengersInFlight s1)(nFlight s1 - 1 := nPassengersInFlight s' (nFlight s1 - 1)),
                finished := finished s'\<rparr>
       \<and> nPassInQueue s' = nPassInQueue s1
       \<and> nPassInFlight s' = nPassInFlight s1
       \<and> totalPassBoarded s' = totalPassBoarded s1
       \<and> nFlight s' = nFlight s1
       \<and> s'' = s1\<lparr>hostessStat := hostessStat s''\<rparr>)"
  by (auto simp: signalReadyToFlight_def waitForNextFlight_def run_def steps Let_def
      split: list.splits)

subsection \<open>Errors of the semaphore operations\<close>

text \<open>
  Claim C7. The hostess tests the value returned by every operation on \<open>mutex\<close>, but
  not the value returned by the operations on the channels. Here the down of
  \<open>readyForBoarding\<close> in \<open>waitForNextFlight\<close> reports an error: the operation returns
  as if the pilot had authorised the boarding, with no diagnostic and no exit.
\<close>

theorem waitForNextFlight_ignores_channel_error:
  "run waitForNextFlight s [granted, granted, failed] =
     (Ret (),
      \<lparr>fSt = s\<lparr>hostessStat := WAIT_FOR_FLIGHT\<rparr>, env = [],
       trace = [(SemDown mutex (Some 0), s),
                (SaveState, s\<lparr>hostessStat := WAIT_FOR_FLIGHT\<rparr>),
                (SemUp mutex (Some 0), s\<lparr>hostessStat := WAIT_FOR_FLIGHT\<rparr>),
                (SemDown readyForBoarding (Some (- 1)), s\<lparr>hostessStat := WAIT_FOR_FLIGHT\<rparr>)]\<rparr>)"
  by (simp add: run_def waitForNextFlight_def steps granted_def failed_def)

text \<open>An error on \<open>mutex\<close>, by contrast, ends the process with a diagnostic.\<close>

lemma waitForNextFlight_mutex_error:
  "run waitForNextFlight s (failed # rest) =
     (Stop (Exited EXIT_FAILURE),
      \<lparr>fSt = s, env = rest,
       trace = [(SemDown mutex (Some (- 1)), s), (Perror down_error, s),
                (Exit EXIT_FAILURE, s)]\<rparr>)"
  by (simp add: run_def waitForNextFlight_def steps failed_def)

subsection \<open>The lock and the channels\<close>

text \<open>
  Claim C8. In each of the four operations, whatever the script, no down of a channel is
  called while the hostess holds \<open>mutex\<close>; the hostess changes the region only while
  it holds \<open>mutex\<close>; and an operation that returns has released \<open>mutex\<close>.
\<close>

theorem no_channel_wait_under_lock:
  "no_wait_in_cs False (trace (snd (run waitForNextFlight s rs)))
   \<and> no_wait_in_cs False (trace (snd (run waitForPassenger s rs)))
   \<and> no_wait_in_cs False (trace (snd (run (checkPassport c) s rs)))
   \<and> no_wait_in_cs False (trace (snd (run (signalReadyToFlight c) s rs)))
   \<and> quiet_outside_cs False s (trace (snd (run waitForNextFlight s rs)))
   \<and> quiet_outside_cs False s (trace (snd (run waitForPassenger s rs)))
   \<and> quiet_outside_cs False s (trace (snd (run (checkPassport c) s rs)))
   \<and> quiet_outside_cs False s (trace (snd (run (signalReadyToFlight c) s rs)))
   \<and> (returned (run waitForNextFlight s rs) \<longrightarrow>
        \<not> lock_held False (trace (snd (run waitForNextFlight s rs))))
   \<and> (returned (run waitForPassenger s rs) \<longrightarrow>
        \<not> lock_held False (trace (snd (run waitForPassenger s rs))))
   \<and> (returned (run (checkPassport c) s rs) \<longrightarrow>
        \<not> lock_held False (trace (snd (run (checkPassport c) s rs))))
   \<and> (returned (run (signalReadyToFlight c) s rs) \<longrightarrow>
        \<not> lock_held False (trace (snd (run (signalReadyToFlight c) s rs))))"
  by (auto simp: returned_def ops run_def steps split: list.splits)

theorem no_channel_wait_under_lock_witness:
  "returned (run waitForNextFlight flight3 (replicate 6 granted))
   \<and> returned (run waitForPassenger flight3 (replicate 6 granted))
   \<and> returned (run (checkPassport c10) flight3 (replicate 6 granted))
   \<and> returned (run (signalReadyToFlight c10) flight3 (replicate 6 granted))
   \<and> no_wait_in_cs False (trace (snd (run (checkPassport c10) flight3 (replicate 6 granted))))
   \<and> \<not> lock_held False (trace (snd (run waitForNextFlight flight3 (replicate 6 granted))))
   \<and> \<not> lock_held False (trace (snd (run waitForPassenger flight3 (replicate 6 granted))))
   \<and> \<not> lock_held False (trace (snd (run (checkPassport c10) flight3 (replicate 6 granted))))
   \<and> \<not> lock_held False (trace (snd (run (signalReadyToFlight c10) flight3 (replicate 6 granted))))"
proof -
  have "returned (run waitForNextFlight flight3 (replicate 6 granted))"
    "returned (run waitForPassenger flight3 (replicate 6 granted))"
    "returned (run (checkPassport c10) flight3 (replicate 6 granted))"
    "returned (run (signalReadyToFlight c10) flight3 (replicate 6 granted))"
    by (simp_all add: returned_def run_def ops steps granted_def numeral_eq_Suc)
  with no_channel_wait_under_lock [of flight3 "replicate 6 granted" c10] show ?thesis
    by blast
qed


section \<open>The life cycle as a whole\<close>

subsection \<open>Assertions on procedures\<close>

text \<open>
  \<open>hoare P m Q E\<close>: from a world that satisfies \<open>P\<close>, the procedure \<open>m\<close> either returns
  a value \<open>a\<close> in a world that satisfies \<open>Q a\<close>, or stops (exit, or the end of the
  script) in a world that satisfies \<open>E\<close>.
\<close>

definition hoare ::
  "(world \<Rightarrow> bool) \<Rightarrow> 'a proc \<Rightarrow> ('a \<Rightarrow> world \<Rightarrow> bool) \<Rightarrow> (world \<Rightarrow> bool) \<Rightarrow> bool" where
  "hoare P m Q E = (\<forall>w. P w \<longrightarrow> (case m w of (Ret a, w') \<Rightarrow> Q a w' | (Stop h, w') \<Rightarrow> E w'))"

lemma hoareD:
  "hoare P m Q E \<Longrightarrow> P w \<Longrightarrow> (case m w of (Ret a, w') \<Rightarrow> Q a w' | (Stop h, w') \<Rightarrow> E w')"
  by (simp add: hoare_def)

lemma hoare_Ret: "hoare P m Q E \<Longrightarrow> P w \<Longrightarrow> m w = (Ret a, w') \<Longrightarrow> Q a w'"
  by (drule (1) hoareD) simp

lemma hoare_Stop: "hoare P m Q E \<Longrightarrow> P w \<Longrightarrow> m w = (Stop h, w') \<Longrightarrow> E w'"
  by (drule (1) hoareD) simp

text \<open>The rule of the inner loop: \<open>B\<close> holds before each passenger, \<open>J\<close> between
  \<open>waitForPassenger\<close> and \<open>checkPassport\<close>, \<open>S\<close> when the last passenger of the flight
  has been checked.\<close>

lemma boarding_rule:
  assumes wfp: "\<And>n. hoare (B n) waitForPassenger (\<lambda>_. J n) E"
    and cp: "\<And>n. hoare (J n) (checkPassport c)
                  (\<lambda>l w. if l then S (n + 1) w else B (n + 1) w) E"
  shows "hoare (B n) (boarding c n) S E"
proof -
  have "c' = c \<Longrightarrow> B n w \<Longrightarrow>
          (case boarding c' n w of (Ret a, w') \<Rightarrow> S a w' | (Stop h, w') \<Rightarrow> E w')" for c' w
  proof (induction c' n w rule: boarding.induct)
    case (1 c' n w)
    note [simp] = \<open>c' = c\<close>
    have pre: "B n w"
      by (rule "1.prems")
    obtain x1 w1 where wfp_w: "waitForPassenger w = (x1, w1)"
      by (cases "waitForPassenger w")
    show ?case
    proof (cases x1)
      case (Stop h)
      with wfp_w have run1: "waitForPassenger w = (Stop h, w1)"
        by simp
      from hoare_Stop [OF wfp pre run1] have "E w1" .
      with run1 show ?thesis
        by (subst boarding.simps) (simp add: bind_def)
    next
      case (Ret u)
      with wfp_w have run1: "waitForPassenger w = (Ret u, w1)"
        by simp
      from hoare_Ret [OF wfp pre run1] have j: "J n w1" .
      obtain x2 w2 where cp_w: "checkPassport c w1 = (x2, w2)"
        by (cases "checkPassport c w1")
      show ?thesis
      proof (cases x2)
        case (Stop h)
        with cp_w have run2: "checkPassport c w1 = (Stop h, w2)"
          by simp
        from hoare_Stop [OF cp j run2] have "E w2" .
        with run1 run2 show ?thesis
          by (subst boarding.simps) (simp add: bind_def)
      next
        case (Ret l)
        with cp_w have run2: "checkPassport c w1 = (Ret l, w2)"
          by simp
        from hoare_Ret [OF cp j run2]
        have post: "if l then S (n + 1) w2 else B (n + 1) w2" .
        show ?thesis
        proof (cases l)
          case True
          with run1 run2 post show ?thesis
            by (subst boarding.simps) (simp add: bind_def return_def)
        next
          case False
          with post have b': "B (n + 1) w2"
            by simp
          have "case boarding c (n + 1) w2 of (Ret a, w') \<Rightarrow> S a w' | (Stop h, w') \<Rightarrow> E w'"
            using "1.IH" [of u w1 l w2] run1 run2 False b' by simp
          with run1 run2 False show ?thesis
            by (subst boarding.simps) (simp add: bind_def)
        qed
      qed
    qed
  qed
  then show ?thesis
    by (simp add: hoare_def)
qed

text \<open>The rule of the outer loop: \<open>I\<close> holds at the test of the loop, \<open>B\<close> after
  \<open>waitForNextFlight\<close>, \<open>S\<close> after the boarding.\<close>

lemma hostess_loop_rule:
  assumes wfnf: "\<And>n. hoare (\<lambda>w. I n w \<and> n < N c) waitForNextFlight (\<lambda>_. B n) E"
    and brd: "\<And>n. hoare (B n) (boarding c n) S E"
    and srtf: "\<And>n. hoare (S n) (signalReadyToFlight c) (\<lambda>_. I n) E"
    and leave: "\<And>n w. I n w \<Longrightarrow> \<not> n < N c \<Longrightarrow> Q n w"
  shows "hoare (I n) (hostess_loop c n) Q E"
proof -
  have "c' = c \<Longrightarrow> I n w \<Longrightarrow>
          (case hostess_loop c' n w of (Ret a, w') \<Rightarrow> Q a w' | (Stop h, w') \<Rightarrow> E w')"
    for c' w
  proof (induction c' n w rule: hostess_loop.induct)
    case (1 c' n w)
    note [simp] = \<open>c' = c\<close>
    have pre: "I n w"
      by (rule "1.prems")
    show ?case
    proof (cases "n < N c")
      case False
      with leave [OF pre] show ?thesis
        by (subst hostess_loop.simps) (simp add: return_def)
    next
      case True
      obtain x1 w1 where r1: "waitForNextFlight w = (x1, w1)"
        by (cases "waitForNextFlight w")
      show ?thesis
      proof (cases x1)
        case (Stop h)
        with r1 have run1: "waitForNextFlight w = (Stop h, w1)"
          by simp
        from pre True have "I n w \<and> n < N c"
          by simp
        from hoare_Stop [OF wfnf this run1] have "E w1" .
        with run1 True show ?thesis
          by (subst hostess_loop.simps) (simp add: bind_def)
      next
        case (Ret u)
        with r1 have run1: "waitForNextFlight w = (Ret u, w1)"
          by simp
        from pre True have "I n w \<and> n < N c"
          by simp
        from hoare_Ret [OF wfnf this run1] have b: "B n w1" .
        obtain x2 w2 where r2: "boarding c n w1 = (x2, w2)"
          by (cases "boarding c n w1")
        show ?thesis
        proof (cases x2)
          case (Stop h)
          with r2 have run2: "boarding c n w1 = (Stop h, w2)"
            by simp
          from hoare_Stop [OF brd b run2] have "E w2" .
          with run1 run2 True show ?thesis
            by (subst hostess_loop.simps) (simp add: bind_def)
        next
          case (Ret n')
          with r2 have run2: "boarding c n w1 = (Ret n', w2)"
            by simp
          from hoare_Ret [OF brd b run2] have s: "S n' w2" .
          obtain x3 w3 where r3: "signalReadyToFlight c w2 = (x3, w3)"
            by (cases "signalReadyToFlight c w2")
          show ?thesis
          proof (cases x3)
            case (Stop h)
            with r3 have run3: "signalReadyToFlight c w2 = (Stop h, w3)"
              by simp
            from hoare_Stop [OF srtf s run3] have "E w3" .
            with run1 run2 run3 True show ?thesis
              by (subst hostess_loop.simps) (simp add: bind_def)
          next
            case (Ret u')
            with r3 have run3: "signalReadyToFlight c w2 = (Ret u', w3)"
              by simp
            from hoare_Ret [OF srtf s run3] have i': "I n' w3" .
            have "case hostess_loop c n' w3 of (Ret a, w') \<Rightarrow> Q a w' | (Stop h, w') \<Rightarrow> E w'"
              using "1.IH" [of u w1 n' w2 u' w3] True run1 run2 run3 i' by simp
            with run1 run2 run3 True show ?thesis
              by (subst hostess_loop.simps) (simp add: bind_def)
          qed
        qed
      qed
    qed
  qed
  then show ?thesis
    by (simp add: hoare_def)
qed

subsection \<open>The flag \<open>finished\<close>\<close>

text \<open>
  \<open>signalReadyToFlight\<close> is the only place where the hostess assigns \<open>finished\<close>, and
  it logs the departure of the flight in the same critical section: the values of
  \<open>finished\<close> in the regions of \<open>departures\<close> are the values that the flag has right
  after each assignment, one per flight. \<open>flag_history\<close> is the value of the flag at
  every call of the hostess, in order.
\<close>

definition flag_history :: "(event \<times> full_stat) list \<Rightarrow> bool list" where
  "flag_history t = map finished (map snd t)"

text \<open>
  The invariants of the two loops. The other processes leave \<open>totalPassBoarded\<close>
  alone. With \<open>whole\<close>, moreover, they leave \<open>finished\<close> alone and the flag starts
  false: then the invariants also follow the flag between the assignments.
\<close>

definition only_hostess_boards :: "bool \<Rightarrow> reply list \<Rightarrow> bool" where
  "only_hostess_boards whole rs =
     (\<forall>r \<in> set rs. (\<forall>x. totalPassBoarded (others r x) = totalPassBoarded x)
        \<and> (whole \<longrightarrow> (\<forall>x. finished (others r x) = finished x)))"

definition fin_writes :: "bool \<Rightarrow> probConst \<Rightarrow> (event \<times> full_stat) list \<Rightarrow> bool" where
  "fin_writes whole c t =
     (list_all (\<lambda>x. finished x = (totalPassBoarded x = N c)) (departures t)
      \<and> list_all (\<lambda>x. \<not> finished x) (butlast (departures t))
      \<and> (whole \<longrightarrow> sorted (flag_history t)
            \<and> list_all (\<lambda>x. finished x \<longrightarrow> totalPassBoarded x = N c) (map snd t)))"

definition fin_quiet :: "bool \<Rightarrow> world \<Rightarrow> bool" where
  "fin_quiet whole w =
     (whole \<longrightarrow> \<not> finished (fSt w) \<and> list_all (\<lambda>x. \<not> finished x) (map snd (trace w)))"

definition fin_head :: "bool \<Rightarrow> probConst \<Rightarrow> int \<Rightarrow> world \<Rightarrow> bool" where
  "fin_head whole c n w =
     (only_hostess_boards whole (env w) \<and> totalPassBoarded (fSt w) = n
      \<and> fin_writes whole c (trace w)
      \<and> (n < N c \<longrightarrow> list_all (\<lambda>x. \<not> finished x) (departures (trace w)) \<and> fin_quiet whole w)
      \<and> (N c \<le> n \<and> 0 < N c \<longrightarrow>
            finished (fSt w) \<and> departures (trace w) \<noteq> []
            \<and> finished (last (departures (trace w)))
            \<and> totalPassBoarded (last (departures (trace w))) = N c))"

definition fin_board :: "bool \<Rightarrow> probConst \<Rightarrow> int \<Rightarrow> world \<Rightarrow> bool" where
  "fin_board whole c n w =
     (only_hostess_boards whole (env w) \<and> totalPassBoarded (fSt w) = n \<and> n < N c
      \<and> list_all (\<lambda>x. finished x = (totalPassBoarded x = N c)) (departures (trace w))
      \<and> list_all (\<lambda>x. \<not> finished x) (departures (trace w)) \<and> fin_quiet whole w)"

definition fin_sig :: "bool \<Rightarrow> probConst \<Rightarrow> int \<Rightarrow> world \<Rightarrow> bool" where
  "fin_sig whole c n w =
     (only_hostess_boards whole (env w) \<and> totalPassBoarded (fSt w) = n \<and> n \<le> N c
      \<and> list_all (\<lambda>x. finished x = (totalPassBoarded x = N c)) (departures (trace w))
      \<and> list_all (\<lambda>x. \<not> finished x) (departures (trace w)) \<and> fin_quiet whole w)"

lemma flag_history_simps [simp]:
  "flag_history [] = []"
  "flag_history (t @ u) = flag_history t @ flag_history u"
  "flag_history ((e, x) # t) = finished x # flag_history t"
  by (simp_all add: flag_history_def)

lemma sorted_after_quiet:
  "list_all (\<lambda>x. \<not> finished x) (map snd t) \<Longrightarrow> sorted (flag_history t @ bs) = sorted bs"
  by (induction t) (auto simp: flag_history_def)

lemma sorted_quiet:
  "list_all (\<lambda>x. \<not> finished x) (map snd t) \<Longrightarrow> sorted (flag_history t)"
  using sorted_after_quiet [of t "[]"] by simp

lemma quiet_implies:
  "list_all (\<lambda>x. \<not> finished x) xs \<Longrightarrow> list_all (\<lambda>x. finished x \<longrightarrow> P x) xs"
  by (simp add: list_all_iff)

lemmas fin_defs = fin_writes_def fin_head_def fin_board_def fin_sig_def fin_quiet_def
  only_hostess_boards_def

lemmas fin_simps = list_all_butlast sorted_after_quiet sorted_quiet quiet_implies

lemma fin_waitForNextFlight:
  "hoare (\<lambda>w. fin_head b c n w \<and> n < N c) waitForNextFlight (\<lambda>_. fin_board b c n)
     (\<lambda>w. fin_writes b c (trace w))"
  unfolding hoare_def
  by (auto simp: waitForNextFlight_def steps fin_defs fin_simps split: list.splits)

lemma fin_waitForPassenger:
  "hoare (fin_board b c n) waitForPassenger (\<lambda>_. fin_board b c n)
     (\<lambda>w. fin_writes b c (trace w))"
  unfolding hoare_def
  by (auto simp: waitForPassenger_def steps fin_defs fin_simps split: list.splits)

lemma fin_checkPassport:
  "hoare (fin_board b c n) (checkPassport c)
     (\<lambda>l w. if l then fin_sig b c (n + 1) w else fin_board b c (n + 1) w)
     (\<lambda>w. fin_writes b c (trace w))"
  unfolding hoare_def
  by (auto simp: checkPassport_def steps fin_defs fin_simps split: list.splits)

lemma fin_signalReadyToFlight:
  "hoare (fin_sig b c n) (signalReadyToFlight c) (\<lambda>_. fin_head b c n)
     (\<lambda>w. fin_writes b c (trace w))"
  unfolding hoare_def
  by (auto simp: signalReadyToFlight_def steps fin_defs fin_simps split: list.splits)

lemma fin_life_cycle:
  "hoare (fin_head b c 0) (hostess_loop c 0)
     (\<lambda>n w. fin_writes b c (trace w)
        \<and> (0 < N c \<longrightarrow>
              finished (fSt w) \<and> departures (trace w) \<noteq> []
              \<and> finished (last (departures (trace w)))
              \<and> totalPassBoarded (last (departures (trace w))) = N c))
     (\<lambda>w. fin_writes b c (trace w))"
proof (rule hostess_loop_rule)
  show "hoare (fin_board b c n) (boarding c n) (fin_sig b c) (\<lambda>w. fin_writes b c (trace w))"
    for n
    by (rule boarding_rule [where J = "fin_board b c", OF fin_waitForPassenger fin_checkPassport])
  show "fin_writes b c (trace w)
        \<and> (0 < N c \<longrightarrow>
              finished (fSt w) \<and> departures (trace w) \<noteq> []
              \<and> finished (last (departures (trace w)))
              \<and> totalPassBoarded (last (departures (trace w))) = N c)"
    if "fin_head b c n w" and "\<not> n < N c" for n w
    using that by (simp add: fin_head_def)
qed (rule fin_waitForNextFlight fin_signalReadyToFlight)+

lemma set_at_most_once:
  "list_all (\<lambda>x. \<not> P x) (butlast xs) \<Longrightarrow> length (filter P xs) \<le> 1"
  by (cases xs rule: rev_cases) (auto simp: list_all_iff filter_empty_conv)

subsection \<open>Conservation of the passengers\<close>

text \<open>
  The flights are numbered from 1 by \<open>nFlight\<close>, and the flight of number \<open>k\<close> has the
  entry of index \<open>k - 1\<close> in \<open>nPassengersInFlight\<close>. Two sums of entries are at stake.

  \<open>recorded_entries x\<close> is the sum of the entries of the flights 1 to \<open>nFlight\<close>: every
  entry recorded so far, the one of the flight that \<open>nFlight\<close> designates included.

  \<open>completed n0 x\<close> is the sum of the entries of the flights that \<open>nFlight\<close> has moved
  past since it was \<open>n0\<close>: the flights \<open>n0\<close> to \<open>nFlight - 1\<close>, of index \<open>n0 - 1\<close> to
  \<open>nFlight - 2\<close>. It leaves out the flight that \<open>nFlight\<close> designates, which is counted
  by \<open>nPassInFlight\<close>, also after \<open>signalReadyToFlight\<close> has recorded its entry, until
  the plane is emptied and \<open>nFlight\<close> advanced. When the region starts at flight number
  \<open>n0 = 1\<close> these are the entries of index 0 to \<open>nFlight - 2\<close>. When it starts as a
  region of zeros, with \<open>n0 = 0\<close>, the range begins at the index \<open>-1\<close>: the hostess
  writes that cell only if she is let to board before the first flight is opened, and
  it is 0 otherwise.
\<close>

definition recorded_entries :: "full_stat \<Rightarrow> int" where
  "recorded_entries x = sum_list (map (nPassengersInFlight x) [0..nFlight x - 1])"

definition completed :: "int \<Rightarrow> full_stat \<Rightarrow> int" where
  "completed n0 x = sum_list (map (nPassengersInFlight x) [n0 - 1..nFlight x - 2])"

definition conserved :: "int \<Rightarrow> full_stat \<Rightarrow> bool" where
  "conserved n0 x = (completed n0 x + nPassInFlight x = totalPassBoarded x)"

text \<open>The regions at the moments the hostess releases the lock, in order.\<close>

definition is_release :: "event \<Rightarrow> bool" where
  "is_release e = (case e of SemUp sm r \<Rightarrow> sm = mutex | _ \<Rightarrow> False)"

definition releases :: "(event \<times> full_stat) list \<Rightarrow> full_stat list" where
  "releases t = map snd (filter (\<lambda>(e, x). is_release e) t)"

definition release_ok :: "int \<Rightarrow> probConst \<Rightarrow> full_stat \<Rightarrow> bool" where
  "release_ok n0 c x = (conserved n0 x \<and> totalPassBoarded x \<le> N c)"

text \<open>
  The hypothesis of the amended claim on the other processes: what they may do to the
  region \<open>x\<close> between two critical sections of the hostess, giving \<open>x'\<close>. Passengers join
  the queue; and, between two flights (the hostess is in state \<open>READY_TO_FLIGHT\<close> or
  \<open>WAIT_FOR_FLIGHT\<close>), the count of the flight is reset and the flight number advanced,
  both in one step: no critical section of the hostess sees one without the other.
\<close>

definition allowed :: "full_stat \<Rightarrow> full_stat \<Rightarrow> bool" where
  "allowed x x' =
     (nPassInQueue x \<le> nPassInQueue x'
      \<and> (x' = x\<lparr>nPassInQueue := nPassInQueue x'\<rparr>
         \<or> ((hostessStat x = READY_TO_FLIGHT \<or> hostessStat x = WAIT_FOR_FLIGHT)
            \<and> x' = x\<lparr>nPassInQueue := nPassInQueue x', nPassInFlight := 0,
                      nFlight := nFlight x + 1\<rparr>)))"

text \<open>The invariant of the region behind the conservation.\<close>

definition recorded :: "full_stat \<Rightarrow> bool" where
  "recorded x = (nPassengersInFlight x (nFlight x - 1) = nPassInFlight x)"

definition tidy :: "int \<Rightarrow> full_stat \<Rightarrow> bool" where
  "tidy n0 x =
     (conserved n0 x \<and> n0 \<le> nFlight x \<and> (\<forall>i \<ge> nFlight x. nPassengersInFlight x i = 0)
      \<and> (hostessStat x = READY_TO_FLIGHT \<or> hostessStat x = WAIT_FOR_FLIGHT \<longrightarrow> recorded x))"

definition well_behaved :: "reply list \<Rightarrow> bool" where
  "well_behaved rs = (\<forall>r \<in> set rs. \<forall>x. allowed x (others r x))"

lemma sum_upto_last:
  "(a::int) \<le> n \<Longrightarrow>
     sum_list (map f [a - 1..n - 1]) = sum_list (map f [a - 1..n - 2]) + f (n - 1)"
proof -
  assume "a \<le> n"
  then have "[a - 1..n - 1] = [a - 1..n - 1 - 1] @ [n - 1]"
    by (intro upto_rec2) simp
  then show ?thesis
    by (simp add: algebra_simps)
qed

lemma sum_upto_upd:
  "sum_list (map (f(n - 1 := v)) [a..n - 2]) = sum_list (map f [a..(n::int) - 2])"
  by (rule arg_cong [where f = sum_list]) (rule map_cong, auto)

lemma tidy_allowed:
  assumes "allowed x x'" and "tidy n0 x"
  shows "tidy n0 x'" and "totalPassBoarded x' = totalPassBoarded x"
    and "hostessStat x' = hostessStat x" and "recorded x \<Longrightarrow> recorded x'"
proof -
  from assms(1) consider
    (arrive) q where "x' = x\<lparr>nPassInQueue := q\<rparr>"
    | (advance) q where "hostessStat x = READY_TO_FLIGHT \<or> hostessStat x = WAIT_FOR_FLIGHT"
        "x' = x\<lparr>nPassInQueue := q, nPassInFlight := 0, nFlight := nFlight x + 1\<rparr>"
    by (auto simp: allowed_def)
  then have "tidy n0 x' \<and> totalPassBoarded x' = totalPassBoarded x
      \<and> hostessStat x' = hostessStat x \<and> (recorded x \<longrightarrow> recorded x')"
  proof cases
    case arrive
    with assms(2) show ?thesis
      by (simp add: tidy_def conserved_def completed_def recorded_def)
  next
    case advance
    from assms(2) advance(1) have rec: "recorded x" and n1: "n0 \<le> nFlight x"
      and cons: "conserved n0 x" and zero: "\<forall>i \<ge> nFlight x. nPassengersInFlight x i = 0"
      by (auto simp: tidy_def)
    have "completed n0 x' = completed n0 x + nPassInFlight x"
      using sum_upto_last [OF n1, of "nPassengersInFlight x"] rec advance(2)
      by (simp add: completed_def recorded_def)
    with cons advance(2) have "conserved n0 x'"
      by (simp add: conserved_def)
    moreover have "recorded x'"
      using zero advance(2) by (simp add: recorded_def)
    ultimately have "tidy n0 x'"
      using n1 zero advance(2) by (simp add: tidy_def)
    with \<open>recorded x'\<close> advance(2) show ?thesis
      by simp
  qed
  then show "tidy n0 x'" and "totalPassBoarded x' = totalPassBoarded x"
    and "hostessStat x' = hostessStat x" and "recorded x \<Longrightarrow> recorded x'"
    by simp_all
qed


lemma allowed_same:
  assumes "\<forall>x. allowed x (others r x)"
  shows "totalPassBoarded (others r x) = totalPassBoarded x"
    and "hostessStat (others r x) = hostessStat x"
proof -
  from assms have "allowed x (others r x)"
    by simp
  then consider q where "others r x = x\<lparr>nPassInQueue := q\<rparr>"
    | q where "others r x = x\<lparr>nPassInQueue := q, nPassInFlight := 0, nFlight := nFlight x + 1\<rparr>"
    by (auto simp: allowed_def)
  then have "totalPassBoarded (others r x) = totalPassBoarded x
      \<and> hostessStat (others r x) = hostessStat x"
    by cases simp_all
  then show "totalPassBoarded (others r x) = totalPassBoarded x"
    and "hostessStat (others r x) = hostessStat x"
    by simp_all
qed

lemma tidy_others:
  "\<forall>x. allowed x (others r x) \<Longrightarrow> tidy n0 x \<Longrightarrow> tidy n0 (others r x)"
  "\<forall>x. allowed x (others r x) \<Longrightarrow> tidy n0 x \<Longrightarrow> recorded x \<Longrightarrow> recorded (others r x)"
  using tidy_allowed [of x "others r x"] by blast+

lemma tidy_state:
  "tidy n0 x \<Longrightarrow> tidy n0 (x\<lparr>hostessStat := WAIT_FOR_PASSENGER\<rparr>)"
  "tidy n0 x \<Longrightarrow> tidy n0 (x\<lparr>hostessStat := CHECK_PASSPORT\<rparr>)"
  "tidy n0 x \<Longrightarrow> recorded x \<Longrightarrow> tidy n0 (x\<lparr>hostessStat := WAIT_FOR_FLIGHT\<rparr>)"
  by (simp_all add: tidy_def conserved_def completed_def recorded_def)

lemma tidy_checked:
  "tidy n0 x \<Longrightarrow> hostessStat x = CHECK_PASSPORT \<Longrightarrow> f = nPassInFlight x + 1 \<Longrightarrow>
     t = totalPassBoarded x + 1 \<Longrightarrow>
     tidy n0 (x\<lparr>nPassInQueue := q, nPassInFlight := f, totalPassBoarded := t\<rparr>)"
  by (simp add: tidy_def conserved_def completed_def recorded_def)

lemma tidy_departed:
  assumes "tidy n0 x"
  shows "tidy n0 (x\<lparr>hostessStat := READY_TO_FLIGHT,
                 nPassengersInFlight := (nPassengersInFlight x)(nFlight x - 1 := nPassInFlight x),
                 finished := f\<rparr>)"
  using assms sum_upto_upd [of "nPassengersInFlight x" "nFlight x" "nPassInFlight x" "n0 - 1"]
  by (simp add: tidy_def conserved_def completed_def recorded_def)

lemma recorded_departed:
  "recorded (x\<lparr>hostessStat := READY_TO_FLIGHT,
                 nPassengersInFlight := (nPassengersInFlight x)(nFlight x - 1 := nPassInFlight x),
                 finished := f\<rparr>)"
  by (simp add: recorded_def)

lemma tidy_conserved: "tidy n0 x \<Longrightarrow> conserved n0 x"
  by (simp add: tidy_def)

definition cons_head :: "int \<Rightarrow> probConst \<Rightarrow> int \<Rightarrow> world \<Rightarrow> bool" where
  "cons_head n0 c n w =
     (list_all (release_ok n0 c) (releases (trace w)) \<and> well_behaved (env w) \<and> tidy n0 (fSt w)
      \<and> recorded (fSt w) \<and> totalPassBoarded (fSt w) = n)"

definition cons_board :: "int \<Rightarrow> probConst \<Rightarrow> int \<Rightarrow> world \<Rightarrow> bool" where
  "cons_board n0 c n w =
     (list_all (release_ok n0 c) (releases (trace w)) \<and> well_behaved (env w) \<and> tidy n0 (fSt w)
      \<and> totalPassBoarded (fSt w) = n \<and> n < N c)"

definition cons_sig :: "int \<Rightarrow> probConst \<Rightarrow> int \<Rightarrow> world \<Rightarrow> bool" where
  "cons_sig n0 c n w =
     (list_all (release_ok n0 c) (releases (trace w)) \<and> well_behaved (env w) \<and> tidy n0 (fSt w)
      \<and> totalPassBoarded (fSt w) = n \<and> n \<le> N c)"

lemma releases_simps [simp]:
  "releases [] = []"
  "releases (t @ u) = releases t @ releases u"
  "releases ((e, x) # t) = (if is_release e then x # releases t else releases t)"
  by (simp_all add: releases_def)

lemmas cons_defs = cons_head_def cons_board_def cons_sig_def well_behaved_def release_ok_def
  is_release_def

lemmas cons_simps = allowed_same tidy_others tidy_state tidy_checked tidy_departed
  recorded_departed tidy_conserved

lemma cons_waitForNextFlight:
  "hoare (\<lambda>w. cons_head n0 c n w \<and> n < N c) waitForNextFlight (\<lambda>_. cons_board n0 c n)
     (\<lambda>w. list_all (release_ok n0 c) (releases (trace w)))"
  unfolding hoare_def
  by (auto simp: waitForNextFlight_def steps cons_defs cons_simps split: list.splits)

lemma cons_waitForPassenger:
  "hoare (cons_board n0 c n) waitForPassenger (\<lambda>_. cons_board n0 c n)
     (\<lambda>w. list_all (release_ok n0 c) (releases (trace w)))"
  unfolding hoare_def
  by (auto simp: waitForPassenger_def steps cons_defs cons_simps split: list.splits)

lemma cons_checkPassport:
  "hoare (cons_board n0 c n) (checkPassport c)
     (\<lambda>l w. if l then cons_sig n0 c (n + 1) w else cons_board n0 c (n + 1) w)
     (\<lambda>w. list_all (release_ok n0 c) (releases (trace w)))"
  unfolding hoare_def
  by (auto simp: checkPassport_def steps cons_defs cons_simps split: list.splits)

lemma cons_signalReadyToFlight:
  "hoare (cons_sig n0 c n) (signalReadyToFlight c) (\<lambda>_. cons_head n0 c n)
     (\<lambda>w. list_all (release_ok n0 c) (releases (trace w)))"
  unfolding hoare_def
  by (auto simp: signalReadyToFlight_def steps cons_defs cons_simps split: list.splits)

lemma cons_life_cycle:
  "hoare (cons_head n0 c 0) (hostess_loop c 0)
     (\<lambda>n w. list_all (release_ok n0 c) (releases (trace w)))
     (\<lambda>w. list_all (release_ok n0 c) (releases (trace w)))"
proof (rule hostess_loop_rule)
  show "hoare (cons_board n0 c n) (boarding c n) (cons_sig n0 c)
          (\<lambda>w. list_all (release_ok n0 c) (releases (trace w)))" for n
    by (rule boarding_rule [where J = "cons_board n0 c", OF cons_waitForPassenger cons_checkPassport])
  show "list_all (release_ok n0 c) (releases (trace w))" if "cons_head n0 c n w" for n w
    using that by (simp add: cons_head_def)
qed (rule cons_waitForNextFlight cons_signalReadyToFlight)+

subsection \<open>Termination of the life cycle\<close>

text \<open>
  The number of passengers checked: \<open>checkPassport\<close> logs one checked passenger per
  call, in its second critical section.
\<close>

definition checked :: "(event \<times> full_stat) list \<Rightarrow> nat" where
  "checked t = length (filter (\<lambda>(e, x). e = SavePassengerChecked) t)"

definition is_signal :: "event \<Rightarrow> bool" where
  "is_signal e = (case e of SemUp sm r \<Rightarrow> sm = readyToFlight | _ \<Rightarrow> False)"

text \<open>
  \<open>all_boarded c w\<close>: the hostess has just signalled a flight ready (its last call is
  the up of \<open>readyToFlight\<close>, in state \<open>READY_TO_FLIGHT\<close>), all \<open>N\<close> passengers have
  boarded, and the hostess has seen it at this departure (\<open>finished\<close>).
\<close>

definition all_boarded :: "probConst \<Rightarrow> world \<Rightarrow> bool" where
  "all_boarded c w =
     (departures (trace w) \<noteq> [] \<and> totalPassBoarded (last (departures (trace w))) = N c
      \<and> trace w \<noteq> [] \<and> is_signal (fst (last (trace w))) \<and> snd (last (trace w)) = fSt w
      \<and> hostessStat (fSt w) = READY_TO_FLIGHT \<and> finished (fSt w)
      \<and> totalPassBoarded (fSt w) = N c)"

text \<open>
  The invariants of the two loops. The other processes leave \<open>totalPassBoarded\<close>
  alone. With \<open>strict\<close>, moreover, no reply of the script reports an error and the
  script is long enough for what is left to do (15 replies per passenger still to board
  at the test of the outer loop, \<open>k\<close> less inside the flight): then the operations
  cannot stop.
\<close>

definition obliging :: "bool \<Rightarrow> reply list \<Rightarrow> bool" where
  "obliging strict rs =
     (\<forall>r \<in> set rs. (strict \<longrightarrow> ret r \<noteq> - 1)
        \<and> (\<forall>x. totalPassBoarded (others r x) = totalPassBoarded x))"

definition life_head :: "bool \<Rightarrow> probConst \<Rightarrow> int \<Rightarrow> world \<Rightarrow> bool" where
  "life_head strict c n w =
     (obliging strict (env w) \<and> totalPassBoarded (fSt w) = n \<and> 0 \<le> n \<and> n \<le> N c
      \<and> int (checked (trace w)) = n
      \<and> (strict \<longrightarrow> 15 * (N c - n) \<le> int (length (env w)))
      \<and> list_all (\<lambda>x. totalPassBoarded x < N c) (butlast (departures (trace w)))
      \<and> (if n < N c then list_all (\<lambda>x. totalPassBoarded x < N c) (departures (trace w))
         else all_boarded c w))"

definition life_board :: "int \<Rightarrow> bool \<Rightarrow> probConst \<Rightarrow> int \<Rightarrow> world \<Rightarrow> bool" where
  "life_board k strict c n w =
     (obliging strict (env w) \<and> totalPassBoarded (fSt w) = n \<and> 0 \<le> n \<and> n < N c
      \<and> int (checked (trace w)) = n
      \<and> (strict \<longrightarrow> 15 * (N c - n) - k \<le> int (length (env w)))
      \<and> list_all (\<lambda>x. totalPassBoarded x < N c) (departures (trace w)))"

definition life_sig :: "bool \<Rightarrow> probConst \<Rightarrow> int \<Rightarrow> world \<Rightarrow> bool" where
  "life_sig strict c n w =
     (obliging strict (env w) \<and> totalPassBoarded (fSt w) = n \<and> 0 \<le> n \<and> n \<le> N c
      \<and> int (checked (trace w)) = n
      \<and> (strict \<longrightarrow> 15 * (N c - n) + 3 \<le> int (length (env w)))
      \<and> list_all (\<lambda>x. totalPassBoarded x < N c) (departures (trace w)))"

lemma checked_simps [simp]:
  "checked [] = 0"
  "checked (t @ u) = checked t + checked u"
  "checked ((e, x) # t) = (if e = SavePassengerChecked then Suc (checked t) else checked t)"
  by (simp_all add: checked_def)

lemmas life_defs = life_head_def life_board_def life_sig_def obliging_def all_boarded_def
  is_signal_def

lemma life_waitForNextFlight:
  "hoare (\<lambda>w. life_head b c n w \<and> n < N c) waitForNextFlight (\<lambda>_. life_board 3 b c n)
     (\<lambda>w. \<not> b)"
  unfolding hoare_def
  by (auto simp: waitForNextFlight_def steps life_defs split: list.splits)

lemma life_waitForPassenger:
  "hoare (life_board 3 b c n) waitForPassenger (\<lambda>_. life_board 6 b c n) (\<lambda>w. \<not> b)"
  unfolding hoare_def
  by (auto simp: waitForPassenger_def steps life_defs split: list.splits)

lemma life_checkPassport:
  "hoare (life_board 6 b c n) (checkPassport c)
     (\<lambda>l w. if l then life_sig b c (n + 1) w else life_board 3 b c (n + 1) w) (\<lambda>w. \<not> b)"
  unfolding hoare_def
  by (auto simp: checkPassport_def steps life_defs split: list.splits)

lemma life_signalReadyToFlight:
  "hoare (life_sig b c n) (signalReadyToFlight c) (\<lambda>_. life_head b c n) (\<lambda>w. \<not> b)"
  unfolding hoare_def
  by (auto simp: signalReadyToFlight_def steps life_defs list_all_butlast split: list.splits)

lemma life_life_cycle:
  "hoare (life_head b c 0) (hostess_loop c 0)
     (\<lambda>n w. n = N c \<and> int (checked (trace w)) = N c
        \<and> list_all (\<lambda>x. totalPassBoarded x < N c) (butlast (departures (trace w)))
        \<and> all_boarded c w)
     (\<lambda>w. \<not> b)"
proof (rule hostess_loop_rule)
  show "hoare (life_board 3 b c n) (boarding c n) (life_sig b c) (\<lambda>w. \<not> b)" for n
    by (rule boarding_rule [where J = "life_board 6 b c",
          OF life_waitForPassenger life_checkPassport])
  show "n = N c \<and> int (checked (trace w)) = N c
        \<and> list_all (\<lambda>x. totalPassBoarded x < N c) (butlast (departures (trace w)))
        \<and> all_boarded c w"
    if "life_head b c n w" and "\<not> n < N c" for n w
    using that by (auto simp: life_head_def)
qed (rule life_waitForNextFlight life_signalReadyToFlight)+

subsection \<open>A small air lift\<close>

text \<open>
  Two passengers, flights of exactly one passenger. \<open>arrival\<close> is a reply during which a
  passenger has joined the queue; \<open>next_flight\<close> is a reply during which the pilot,
  between two flights, has emptied the plane and advanced the flight number. In
  \<open>two_flights\<close> each passenger arrives while the hostess waits for a passenger, and
  the pilot prepares the second flight while the hostess waits for it.
\<close>

definition c2 :: probConst where
  "c2 = \<lparr>N = 2, MINFC = 1, MAXFC = 1\<rparr>"

definition region0 :: full_stat where
  "region0 = \<lparr>hostessStat = WAIT_FOR_FLIGHT, nPassInQueue = 0, nPassInFlight = 0,
     totalPassBoarded = 0, nFlight = 1, nPassengersInFlight = (\<lambda>_. 0), finished = False\<rparr>"

definition arrival :: reply where
  "arrival = \<lparr>ret = 0, others = (\<lambda>x. x\<lparr>nPassInQueue := nPassInQueue x + 1\<rparr>)\<rparr>"

definition next_flight :: reply where
  "next_flight = \<lparr>ret = 0, others = (\<lambda>x.
     if hostessStat x = READY_TO_FLIGHT \<or> hostessStat x = WAIT_FOR_FLIGHT
     then x\<lparr>nPassInFlight := 0, nFlight := nFlight x + 1\<rparr> else x)\<rparr>"

definition one_flight :: "reply \<Rightarrow> reply list" where
  "one_flight pilot =
     [pilot, granted, granted, arrival, granted, granted,
      granted, granted, granted, granted, granted, granted,
      granted, granted, granted]"

definition two_flights :: "reply list" where
  "two_flights = one_flight granted @ one_flight next_flight"

definition region2 :: full_stat where
  "region2 = \<lparr>hostessStat = READY_TO_FLIGHT, nPassInQueue = 0, nPassInFlight = 1,
     totalPassBoarded = 2, nFlight = 2, nPassengersInFlight = (\<lambda>_. 0)(0 := 1, 1 := 1),
     finished = True\<rparr>"

lemmas normal = waitForNextFlight_normal waitForPassenger_normal checkPassport_normal
  signalReadyToFlight_normal

lemmas scenario = c2_def region0_def region2_def granted_def arrival_def next_flight_def
  two_flights_def one_flight_def

lemmas evaluation = run_def hostess_life_cycle_def hostess_loop.simps boarding.simps bind_def
  return_def normal Let_def scenario

lemma two_flights_run:
  "fst (run (hostess_life_cycle c2) region0 two_flights) = Ret 2"
  "fSt (snd (run (hostess_life_cycle c2) region0 two_flights)) = region2"
  by (simp_all add: evaluation)

lemma two_flights_departures:
  "map finished (departures (trace (snd (run (hostess_life_cycle c2) region0 two_flights))))
     = [False, True]
   \<and> map totalPassBoarded
       (departures (trace (snd (run (hostess_life_cycle c2) region0 two_flights))))
     = [1, 2]"
  by (simp add: evaluation)

lemma two_flights_replies:
  "list_all (\<lambda>r. ret r \<noteq> - 1) two_flights"
  "list_all (\<lambda>r. \<forall>x. totalPassBoarded (others r x) = totalPassBoarded x) two_flights"
  "length two_flights = 30"
  by (simp_all add: scenario)

subsection \<open>The scenario of the specification\<close>

text \<open>
  Section 8 of the specification: \<open>N = 10\<close>, \<open>MINFC = 3\<close>, \<open>MAXFC = 5\<close>. Six passengers
  are in the queue when the first is checked, so the first flight fills up to 5; two
  more arrive during the second flight, which leaves with 3 when the queue is empty;
  the last two arrive for the third flight, which leaves with 2 because all have
  boarded. \<open>arrivals k\<close> is a reply during which \<open>k\<close> passengers have joined the queue;
  \<open>passenger r\<close> are the nine replies to \<open>waitForPassenger\<close> and \<open>checkPassport\<close> for one
  passenger, the first of them \<open>r\<close>.
\<close>

definition arrivals :: "int \<Rightarrow> reply" where
  "arrivals k = \<lparr>ret = 0, others = (\<lambda>x. x\<lparr>nPassInQueue := nPassInQueue x + k\<rparr>)\<rparr>"

definition passenger :: "reply \<Rightarrow> reply list" where
  "passenger r = [r, granted, granted, granted, granted, granted, granted, granted, granted]"

definition three_flights :: "reply list" where
  "three_flights =
     [granted, granted, granted]
     @ passenger (arrivals 6) @ passenger granted @ passenger granted @ passenger granted
     @ passenger granted
     @ [granted, granted, granted]
     @ [next_flight, granted, granted]
     @ passenger granted @ passenger (arrivals 2) @ passenger granted
     @ [granted, granted, granted]
     @ [next_flight, granted, granted]
     @ passenger (arrivals 2) @ passenger granted
     @ [granted, granted, granted]"

lemma three_flights_run:
  "fst (run (hostess_life_cycle c10) region0 three_flights) = Ret 10
   \<and> map nPassInFlight
       (departures (trace (snd (run (hostess_life_cycle c10) region0 three_flights))))
     = [5, 3, 2]
   \<and> map finished
       (departures (trace (snd (run (hostess_life_cycle c10) region0 three_flights))))
     = [False, False, True]
   \<and> nPassInQueue (fSt (snd (run (hostess_life_cycle c10) region0 three_flights))) = 0"
  by (simp add: evaluation c10_def three_flights_def passenger_def arrivals_def)

subsection \<open>The first flights from a region of zeros\<close>

text \<open>
  The shared region is created with every counter at zero, the flight number too
  (\<open>zero_region\<close>): the pilot opens flight 1 before the hostess is let to board. In
  \<open>opened_flights\<close> the pilot empties the plane and advances the flight number in one
  step, as the hostess enters \<open>waitForNextFlight\<close>, before each of the two flights.

  \<open>plane_emptied\<close> and \<open>flight_opened\<close> are the two actions of \<open>next_flight\<close> taken apart.
  In \<open>split_flights\<close> the first flight is opened as the hostess enters
  \<open>waitForNextFlight\<close> (the plane is empty: there is nothing to reset). After it has
  departed the plane is emptied as the hostess enters \<open>waitForNextFlight\<close>, and the
  second flight is opened only after the critical section of \<open>waitForNextFlight\<close>, as
  the hostess enters \<open>waitForPassenger\<close>; the second passenger joins the queue while the
  hostess waits for a passenger.

  \<open>external_action x x'\<close> is what the other processes may do to the region when the reset
  and the advance are two actions: nothing, one passenger more in the queue, or,
  between two flights, either the reset of \<open>nPassInFlight\<close> or the advance of \<open>nFlight\<close>.
  \<open>external r\<close> holds when the reply \<open>r\<close> does such an action whatever the region.
  \<open>opened_releases\<close> and \<open>split_releases\<close> are the regions at the releases of the lock in
  the two runs.
\<close>

definition zero_region :: full_stat where
  "zero_region = \<lparr>hostessStat = WAIT_FOR_FLIGHT, nPassInQueue = 0, nPassInFlight = 0,
     totalPassBoarded = 0, nFlight = 0, nPassengersInFlight = (\<lambda>_. 0), finished = False\<rparr>"

definition opened_flights :: "reply list" where
  "opened_flights = one_flight next_flight @ one_flight next_flight"

definition opened_releases :: "full_stat list" where
  "opened_releases =
     releases (trace (snd (run (hostess_life_cycle c2) zero_region opened_flights)))"

definition plane_emptied :: reply where
  "plane_emptied = \<lparr>ret = 0, others = (\<lambda>x.
     if hostessStat x = READY_TO_FLIGHT \<or> hostessStat x = WAIT_FOR_FLIGHT
     then x\<lparr>nPassInFlight := 0\<rparr> else x)\<rparr>"

definition flight_opened :: reply where
  "flight_opened = \<lparr>ret = 0, others = (\<lambda>x.
     if hostessStat x = READY_TO_FLIGHT \<or> hostessStat x = WAIT_FOR_FLIGHT
     then x\<lparr>nFlight := nFlight x + 1\<rparr> else x)\<rparr>"

definition split_flights :: "reply list" where
  "split_flights =
     [flight_opened, granted, granted, arrival, granted, granted,
      granted, granted, granted, granted, granted, granted,
      granted, granted, granted,
      plane_emptied, granted, granted, flight_opened, granted, granted,
      arrival, granted, granted, granted, granted, granted,
      granted, granted, granted]"

definition external_action :: "full_stat \<Rightarrow> full_stat \<Rightarrow> bool" where
  "external_action x x' =
     (x' = x \<or> x' = x\<lparr>nPassInQueue := nPassInQueue x + 1\<rparr>
      \<or> ((hostessStat x = READY_TO_FLIGHT \<or> hostessStat x = WAIT_FOR_FLIGHT)
         \<and> (x' = x\<lparr>nPassInFlight := 0\<rparr> \<or> x' = x\<lparr>nFlight := nFlight x + 1\<rparr>)))"

definition external :: "reply \<Rightarrow> bool" where
  "external r = (\<forall>x. external_action x (others r x))"

definition split_releases :: "full_stat list" where
  "split_releases = releases (trace (snd (run (hostess_life_cycle c2) zero_region split_flights)))"

lemmas scenario0 = zero_region_def opened_flights_def plane_emptied_def flight_opened_def
  split_flights_def

lemma split_flights_external: "list_all external split_flights"
  by (simp add: scenario scenario0 external_def external_action_def)

lemma split_flights_run:
  "fst (run (hostess_life_cycle c2) zero_region split_flights) = Ret 2"
  "length split_releases = 10"
  "map nFlight split_releases = [1, 1, 1, 1, 1, 1, 2, 2, 2, 2]"
  "map nPassInFlight split_releases = [0, 0, 0, 1, 1, 0, 0, 0, 1, 1]"
  "map totalPassBoarded split_releases = [0, 0, 0, 1, 1, 1, 1, 1, 2, 2]"
  "map hostessStat split_releases =
     [WAIT_FOR_FLIGHT, WAIT_FOR_PASSENGER, CHECK_PASSPORT, CHECK_PASSPORT, READY_TO_FLIGHT,
      WAIT_FOR_FLIGHT, WAIT_FOR_PASSENGER, CHECK_PASSPORT, CHECK_PASSPORT, READY_TO_FLIGHT]"
  by (simp_all add: split_releases_def evaluation scenario0 is_release_def)

lemma opened_flights_allowed:
  "list_all (\<lambda>r. \<forall>x. allowed x (others r x)) opened_flights"
  by (simp add: scenario scenario0 allowed_def)

lemma opened_flights_run:
  "fst (run (hostess_life_cycle c2) zero_region opened_flights) = Ret 2"
  "length opened_releases = 10"
  "map nFlight opened_releases = [1, 1, 1, 1, 1, 2, 2, 2, 2, 2]"
  "map nPassInFlight opened_releases = [0, 0, 0, 1, 1, 0, 0, 0, 1, 1]"
  "map totalPassBoarded opened_releases = [0, 0, 0, 1, 1, 1, 1, 1, 2, 2]"
  "map recorded_entries opened_releases = [0, 0, 0, 0, 1, 1, 1, 1, 1, 2]"
  "map (completed 0) opened_releases = [0, 0, 0, 0, 0, 1, 1, 1, 1, 1]"
  by (simp_all add: opened_releases_def evaluation scenario0 is_release_def
      recorded_entries_def completed_def upto.simps)

lemma two_flights_flag:
  "\<not> finished region0"
  "list_all (\<lambda>r. \<forall>x. finished (others r x) = finished x) two_flights"
  by (simp_all add: scenario)

section \<open>The claims on the life cycle\<close>

text \<open>
  Claim C3. Let \<open>N\<close> be positive, and let \<open>totalPassBoarded\<close> start at 0 and be
  changed by nobody but the hostess. First, the life cycle terminates: when the
  semaphore library answers every call without error, for at least \<open>15 * N\<close> calls (a
  passenger costs 9 calls, a flight 6, and there are at most \<open>N\<close> flights), the life
  cycle returns. Second, whatever the script, when the life cycle returns: the local
  counter of the calls of \<open>checkPassport\<close> is \<open>N\<close> and \<open>N\<close> passengers have been logged
  as checked; the hostess has just signalled a flight ready, in state
  \<open>READY_TO_FLIGHT\<close>, with \<open>totalPassBoarded = N\<close> and \<open>finished\<close> set (\<open>all_boarded\<close>); and at
  every earlier departure \<open>totalPassBoarded\<close> was below \<open>N\<close>, so that the loop went on.
\<close>

theorem life_cycle_terminates:
  assumes "0 < N c" and "totalPassBoarded s = 0"
    and "\<forall>r \<in> set rs. \<forall>x. totalPassBoarded (others r x) = totalPassBoarded x"
  shows "(let out = run (hostess_life_cycle c) s rs; t = trace (snd out)
          in ((\<forall>r \<in> set rs. ret r \<noteq> - 1) \<and> 15 * N c \<le> int (length rs) \<longrightarrow> returned out)
             \<and> (returned out \<longrightarrow>
                  fst out = Ret (N c)
                  \<and> int (checked t) = N c
                  \<and> list_all (\<lambda>x. totalPassBoarded x < N c) (butlast (departures t))
                  \<and> all_boarded c (snd out)))"
proof -
  let ?w = "\<lparr>fSt = s, env = rs, trace = []\<rparr>"
  have total: "returned (hostess_loop c 0 ?w)"
    if "\<forall>r \<in> set rs. ret r \<noteq> - 1" and "15 * N c \<le> int (length rs)"
  proof -
    from assms that have "life_head True c 0 ?w"
      by (simp add: life_head_def obliging_def)
    from hoareD [OF life_life_cycle this] show ?thesis
      by (auto simp: returned_def split: prod.splits res.splits)
  qed
  from assms have "life_head False c 0 ?w"
    by (simp add: life_head_def obliging_def)
  from hoareD [OF life_life_cycle this] total show ?thesis
    by (auto simp: run_def hostess_life_cycle_def Let_def returned_def
        split: prod.splits res.splits)
qed

theorem life_cycle_terminates_witness:
  "0 < N c2 \<and> totalPassBoarded region0 = 0
   \<and> list_all (\<lambda>r. ret r \<noteq> - 1) two_flights \<and> 15 * N c2 \<le> int (length two_flights)
   \<and> returned (run (hostess_life_cycle c2) region0 two_flights)
   \<and> fst (run (hostess_life_cycle c2) region0 two_flights) = Ret 2
   \<and> checked (trace (snd (run (hostess_life_cycle c2) region0 two_flights))) = 2
   \<and> all_boarded c2 (snd (run (hostess_life_cycle c2) region0 two_flights))"
proof -
  have "\<forall>r \<in> set two_flights. \<forall>x. totalPassBoarded (others r x) = totalPassBoarded x"
    and "\<forall>r \<in> set two_flights. ret r \<noteq> - 1"
    using two_flights_replies(1,2) by (simp_all add: list_all_iff)
  moreover have "0 < N c2" and "totalPassBoarded region0 = 0"
    and "15 * N c2 \<le> int (length two_flights)"
    by (simp_all add: c2_def region0_def two_flights_replies(3))
  ultimately show ?thesis
    using life_cycle_terminates [of c2 region0 two_flights] two_flights_replies(1)
    by (simp add: Let_def c2_def)
qed

text \<open>
  Claim C5, as the specification states it, fails, in two ways.

  First, \<open>signalReadyToFlight\<close> records the entry of the flight while \<open>nPassInFlight\<close>
  still counts its passengers: if the sum runs over every recorded entry, the flight
  that has just departed is counted twice at the release of \<open>signalReadyToFlight\<close>. In
  \<open>opened_flights\<close>, where the pilot prepares each flight in one step (the script is
  \<open>well_behaved\<close>), the fifth release has one passenger boarded, and the recorded
  entries and \<open>nPassInFlight\<close> add up to two.

  Second, the claim lets the others reset \<open>nPassInFlight\<close> and advance \<open>nFlight\<close> as two
  actions, and the hostess has a critical section between two flights, in
  \<open>waitForNextFlight\<close>. In \<open>split_flights\<close> every reply is one action that the claim
  grants. The fifth release (of \<open>signalReadyToFlight\<close>) and the sixth (of
  \<open>waitForNextFlight\<close>, after the plane was emptied and before the next flight was
  opened) have the same flight number, the same entries and the same
  \<open>totalPassBoarded = 1\<close>, but \<open>nPassInFlight\<close> is 1 at the fifth and 0 at the sixth: no
  sum of entries makes the equation hold at both. With the entries of the flights that
  \<open>nFlight\<close> has moved past it fails at the sixth, with every recorded entry at the
  fifth.
\<close>

theorem conservation_fails_between_flights:
  "well_behaved opened_flights
   \<and> fst (run (hostess_life_cycle c2) zero_region opened_flights) = Ret 2
   \<and> totalPassBoarded (opened_releases ! 4) = 1
   \<and> recorded_entries (opened_releases ! 4) + nPassInFlight (opened_releases ! 4) = 2
   \<and> list_all external split_flights
   \<and> fst (run (hostess_life_cycle c2) zero_region split_flights) = Ret 2
   \<and> hostessStat (split_releases ! 4) = READY_TO_FLIGHT
   \<and> hostessStat (split_releases ! 5) = WAIT_FOR_FLIGHT
   \<and> nFlight (split_releases ! 4) = 1
   \<and> nFlight (split_releases ! 5) = 1
   \<and> nPassengersInFlight (split_releases ! 5) = nPassengersInFlight (split_releases ! 4)
   \<and> totalPassBoarded (split_releases ! 4) = 1
   \<and> totalPassBoarded (split_releases ! 5) = 1
   \<and> nPassInFlight (split_releases ! 4) = 1
   \<and> nPassInFlight (split_releases ! 5) = 0
   \<and> recorded_entries (split_releases ! 4) + nPassInFlight (split_releases ! 4) = 2
   \<and> completed (nFlight zero_region) (split_releases ! 5) + nPassInFlight (split_releases ! 5)
       = 0"
proof -
  have a: "f (opened_releases ! 4) = map f opened_releases ! 4" for f :: "full_stat \<Rightarrow> int"
    by (simp add: opened_flights_run(2))
  have b: "f (split_releases ! 4) = map f split_releases ! 4"
    "f (split_releases ! 5) = map f split_releases ! 5" for f :: "full_stat \<Rightarrow> 'a"
    by (simp_all add: split_flights_run(2))
  have "totalPassBoarded (opened_releases ! 4) = 1"
    and "recorded_entries (opened_releases ! 4) + nPassInFlight (opened_releases ! 4) = 2"
    by (simp_all add: a opened_flights_run)
  moreover have "hostessStat (split_releases ! 4) = READY_TO_FLIGHT"
    and "hostessStat (split_releases ! 5) = WAIT_FOR_FLIGHT"
    and "nFlight (split_releases ! 4) = 1" and "nFlight (split_releases ! 5) = 1"
    and "totalPassBoarded (split_releases ! 4) = 1"
    and "totalPassBoarded (split_releases ! 5) = 1"
    and "nPassInFlight (split_releases ! 4) = 1" and "nPassInFlight (split_releases ! 5) = 0"
    by (simp_all add: b split_flights_run)
  moreover have
    "nPassengersInFlight (split_releases ! 5) = nPassengersInFlight (split_releases ! 4)"
    and "recorded_entries (split_releases ! 4) = 1"
    and "completed (nFlight zero_region) (split_releases ! 5) = 0"
    by (simp_all add: split_releases_def evaluation scenario0 is_release_def
        recorded_entries_def completed_def upto.simps)
  moreover have "well_behaved opened_flights"
    using opened_flights_allowed by (simp add: well_behaved_def list_all_iff)
  ultimately show ?thesis
    using opened_flights_run(1) split_flights_run(1) split_flights_external by simp
qed

text \<open>
  Claim C5, amended. Let the region start with no passenger boarded, none in the flight
  and no entry recorded, as a region of zeros does, and let the other processes do
  nothing to the region but what \<open>allowed\<close> describes: add passengers to the queue and,
  between two flights, reset \<open>nPassInFlight\<close> and advance \<open>nFlight\<close> together, in one
  step. Then at every release of the lock by the hostess, whatever the script and
  however the life cycle ends, the entries of the flights that \<open>nFlight\<close> has moved past
  since the start and \<open>nPassInFlight\<close> add up to \<open>totalPassBoarded\<close>, and
  \<open>totalPassBoarded \<le> N\<close>. The entry of the flight that \<open>nFlight\<close> designates is not in
  the sum: from the release of \<open>signalReadyToFlight\<close> until the others prepare the next
  flight, that flight is recorded and still counted by \<open>nPassInFlight\<close>.
\<close>

theorem conservation_at_release:
  assumes "totalPassBoarded s = 0" and "nPassInFlight s = 0"
    and "\<forall>i. nPassengersInFlight s i = 0"
    and "\<forall>r \<in> set rs. \<forall>x. allowed x (others r x)"
  shows "list_all (\<lambda>x. completed (nFlight s) x + nPassInFlight x = totalPassBoarded x
                        \<and> totalPassBoarded x \<le> N c)
           (releases (trace (snd (run (hostess_life_cycle c) s rs))))"
proof -
  let ?w = "\<lparr>fSt = s, env = rs, trace = []\<rparr>"
  from assms(3) have "nPassengersInFlight s = (\<lambda>i. 0)"
    by (simp add: fun_eq_iff)
  with assms have "cons_head (nFlight s) c 0 ?w"
    by (simp add: cons_head_def well_behaved_def tidy_def conserved_def completed_def
        recorded_def)
  from hoareD [OF cons_life_cycle this]
  have "list_all (release_ok (nFlight s) c) (releases (trace (snd (hostess_loop c 0 ?w))))"
    by (auto split: prod.splits res.splits)
  then show ?thesis
    by (simp add: run_def hostess_life_cycle_def release_ok_def conserved_def list_all_iff)
qed

theorem conservation_at_release_witness:
  "totalPassBoarded zero_region = 0 \<and> nPassInFlight zero_region = 0
   \<and> nPassengersInFlight zero_region 0 = 0 \<and> nFlight zero_region = 0
   \<and> list_all (\<lambda>r. \<forall>x. allowed x (others r x)) opened_flights
   \<and> length (releases (trace (snd (run (hostess_life_cycle c2) zero_region opened_flights))))
       = 10
   \<and> list_all (\<lambda>x. completed (nFlight zero_region) x + nPassInFlight x = totalPassBoarded x
                     \<and> totalPassBoarded x \<le> N c2)
       (releases (trace (snd (run (hostess_life_cycle c2) zero_region opened_flights))))"
proof -
  have "\<forall>r \<in> set opened_flights. \<forall>x. allowed x (others r x)"
    using opened_flights_allowed by (simp add: list_all_iff)
  moreover have "totalPassBoarded zero_region = 0" and "nPassInFlight zero_region = 0"
    and "\<forall>i. nPassengersInFlight zero_region i = 0" and "nFlight zero_region = 0"
    by (simp_all add: zero_region_def)
  moreover have
    "length (releases (trace (snd (run (hostess_life_cycle c2) zero_region opened_flights))))
       = 10"
    using opened_flights_run(2) by (simp add: opened_releases_def)
  ultimately show ?thesis
    using conservation_at_release [of zero_region opened_flights c2] opened_flights_allowed
    by simp
qed

text \<open>
  Claim C6. Let \<open>totalPassBoarded\<close> start at 0 and be changed by nobody but the
  hostess. The hostess assigns \<open>finished\<close> in \<open>signalReadyToFlight\<close>, and the regions of
  \<open>departures\<close> hold the flag as each of these assignments leaves it. Whatever the
  script and however the life cycle ends: the flag is true after an assignment exactly
  when \<open>totalPassBoarded = N\<close>; it is false after every assignment but the last, so that
  at most one assignment sets it; and when the life cycle returns (and \<open>N\<close> is positive)
  exactly one assignment has set it, the last one, made with \<open>totalPassBoarded = N\<close>, and
  the flag is set in the final region. When moreover the flag starts false and the
  other processes leave it alone, the flag is never reset: along the whole trace of the
  hostess it is false up to some call and true from then on (\<open>flag_history\<close> is sorted,
  false before true), and wherever it is true \<open>totalPassBoarded = N\<close>.
\<close>

theorem finished_set_once:
  assumes "totalPassBoarded s = 0"
    and "\<forall>r \<in> set rs. \<forall>x. totalPassBoarded (others r x) = totalPassBoarded x"
  shows "(let out = run (hostess_life_cycle c) s rs; t = trace (snd out); d = departures t
          in list_all (\<lambda>x. finished x = (totalPassBoarded x = N c)) d
             \<and> list_all (\<lambda>x. \<not> finished x) (butlast d)
             \<and> length (filter finished d) \<le> 1
             \<and> (returned out \<and> 0 < N c \<longrightarrow>
                  length (filter finished d) = 1 \<and> finished (last d)
                  \<and> totalPassBoarded (last d) = N c \<and> finished (fSt (snd out)))
             \<and> (\<not> finished s \<and> (\<forall>r \<in> set rs. \<forall>x. finished (others r x) = finished x) \<longrightarrow>
                  sorted (flag_history t)
                  \<and> list_all (\<lambda>x. finished x \<longrightarrow> totalPassBoarded x = N c) (map snd t)))"
proof -
  let ?w = "\<lparr>fSt = s, env = rs, trace = []\<rparr>"
  define b where "b = (\<not> finished s \<and> (\<forall>r \<in> set rs. \<forall>x. finished (others r x) = finished x))"
  obtain a w where out: "hostess_loop c 0 ?w = (a, w)"
    by (cases "hostess_loop c 0 ?w")
  from assms have "fin_head b c 0 ?w"
    by (auto simp: fin_head_def fin_writes_def fin_quiet_def only_hostess_boards_def b_def)
  note post = hoareD [OF fin_life_cycle this]
  from post out have writes: "fin_writes b c (trace w)"
    by (auto split: res.splits)
  from post out
  have ret: "finished (fSt w) \<and> departures (trace w) \<noteq> []
       \<and> finished (last (departures (trace w)))
       \<and> totalPassBoarded (last (departures (trace w))) = N c"
    if "returned (a, w)" and "0 < N c"
    using that by (auto simp: returned_def split: res.splits)
  from writes have "list_all (\<lambda>x. \<not> finished x) (butlast (departures (trace w)))"
    by (simp add: fin_writes_def)
  then have once: "length (filter finished (departures (trace w))) \<le> 1"
    by (rule set_at_most_once)
  have "length (filter finished (departures (trace w))) = 1"
    if "returned (a, w)" and "0 < N c"
  proof -
    from ret [OF that] have "last (departures (trace w)) \<in> set (departures (trace w))"
      and "finished (last (departures (trace w)))"
      by simp_all
    then have "filter finished (departures (trace w)) \<noteq> []"
      by (auto simp: filter_empty_conv)
    with once show ?thesis
      by (cases "filter finished (departures (trace w))") simp_all
  qed
  with writes ret once show ?thesis
    by (simp add: run_def hostess_life_cycle_def Let_def out fin_writes_def b_def)
qed

theorem finished_set_once_witness:
  "totalPassBoarded region0 = 0 \<and> \<not> finished region0
   \<and> list_all (\<lambda>r. \<forall>x. totalPassBoarded (others r x) = totalPassBoarded x) two_flights
   \<and> list_all (\<lambda>r. \<forall>x. finished (others r x) = finished x) two_flights
   \<and> returned (run (hostess_life_cycle c2) region0 two_flights) \<and> 0 < N c2
   \<and> map finished (departures (trace (snd (run (hostess_life_cycle c2) region0 two_flights))))
       = [False, True]
   \<and> length (filter finished
        (departures (trace (snd (run (hostess_life_cycle c2) region0 two_flights))))) = 1
   \<and> totalPassBoarded
        (last (departures (trace (snd (run (hostess_life_cycle c2) region0 two_flights)))))
       = N c2
   \<and> finished (fSt (snd (run (hostess_life_cycle c2) region0 two_flights)))
   \<and> sorted (flag_history (trace (snd (run (hostess_life_cycle c2) region0 two_flights))))"
proof -
  have "\<forall>r \<in> set two_flights. \<forall>x. totalPassBoarded (others r x) = totalPassBoarded x"
    and "\<forall>r \<in> set two_flights. \<forall>x. finished (others r x) = finished x"
    using two_flights_replies(2) two_flights_flag(2) by (simp_all add: list_all_iff)
  moreover have "totalPassBoarded region0 = 0" and "0 < N c2"
    by (simp_all add: region0_def c2_def)
  moreover have "returned (run (hostess_life_cycle c2) region0 two_flights)"
    by (simp add: returned_def two_flights_run(1))
  ultimately show ?thesis
    using finished_set_once [of region0 two_flights c2] two_flights_replies(2)
      two_flights_flag two_flights_departures
    by (simp add: Let_def)
qed

end
